theory Spec2Isabelle
  imports Main "HOL-Library.Sublist" "HOL-Library.AList"
begin

section \<open>Exceptions and HTTP statuses\<close>

text \<open>
  Every exception the modelled code can raise is a value. A handler returns
  \<open>error + 'a\<close>; \<open>Inl\<close> is the raised exception. FastAPI answers an
  \<open>HTTPException\<close> with its own status code and every other exception that
  leaves a handler with 500.
\<close>

datatype error =
    OverflowError
  | ValueError string
  | TypeError
  | AttributeError
  | ValidationError
  | MultipleResultsFound
  | IntegrityError
  | RecursionError
  | JWSError
  | JWTError
  | ExpiredSignatureError
  | JWTClaimsError
  | HTTPException nat

fun status_code :: "error \<Rightarrow> nat" where
  "status_code (HTTPException n) = n"
| "status_code e = 500"

definition HTTP_401_UNAUTHORIZED :: nat where "HTTP_401_UNAUTHORIZED = 401"
definition HTTP_403_FORBIDDEN :: nat where "HTTP_403_FORBIDDEN = 403"
definition HTTP_404_NOT_FOUND :: nat where "HTTP_404_NOT_FOUND = 404"
definition HTTP_409_CONFLICT :: nat where "HTTP_409_CONFLICT = 409"
definition HTTP_500_INTERNAL_SERVER_ERROR :: nat where "HTTP_500_INTERNAL_SERVER_ERROR = 500"

text \<open>
  python-jose's \<open>ExpiredSignatureError\<close> and \<open>JWTClaimsError\<close> are subclasses of
  its \<open>JWTError\<close>; its \<open>JWSError\<close> is not. \<open>isinstance_JWTError\<close> is what
  \<open>except JWTError\<close> catches.
\<close>

definition isinstance_JWTError :: "error \<Rightarrow> bool" where
  "isinstance_JWTError err = (err \<in> set [JWTError, ExpiredSignatureError, JWTClaimsError])"

section \<open>Calendar dates (Python's datetime, proleptic Gregorian)\<close>

text \<open>
  \<open>datetime.today()\<close>, \<open>timedelta(days=n)\<close>, their sum and
  \<open>timetuple().tm_yday\<close>, as the standard library computes them. Only whole days
  are added in \<open>get_upcoming_birthdays\<close>, so the time of day is left out.
\<close>

record date =
  year :: int
  month :: int
  day :: int

definition is_leap :: "int \<Rightarrow> bool" where
  "is_leap y = (y mod 4 = 0 \<and> (y mod 100 \<noteq> 0 \<or> y mod 400 = 0))"

definition days_before_year :: "int \<Rightarrow> int" where
  "days_before_year y = (let p = y - 1 in p * 365 + p div 4 - p div 100 + p div 400)"

definition DAYS_IN_MONTH :: "int list" where
  "DAYS_IN_MONTH = [-1, 31, 28, 31, 30, 31, 30, 31, 31, 30, 31, 30, 31]"

definition DAYS_BEFORE_MONTH :: "int list" where
  "DAYS_BEFORE_MONTH = [-1, 0, 31, 59, 90, 120, 151, 181, 212, 243, 273, 304, 334]"

definition days_before_month :: "int \<Rightarrow> int \<Rightarrow> int" where
  "days_before_month y m =
     DAYS_BEFORE_MONTH ! nat m + (if m > 2 \<and> is_leap y then 1 else 0)"

definition ymd2ord :: "int \<Rightarrow> int \<Rightarrow> int \<Rightarrow> int" where
  "ymd2ord y m d = days_before_year y + days_before_month y m + d"

definition DI400Y :: int where "DI400Y = 146097"
definition DI100Y :: int where "DI100Y = 36524"
definition DI4Y :: int where "DI4Y = 1461"
definition MAXORDINAL :: int where "MAXORDINAL = 3652059"

definition ord2ymd :: "int \<Rightarrow> int \<times> int \<times> int" where
  "ord2ymd n0 =
     (let n = n0 - 1;
          n400 = n div DI400Y; n = n mod DI400Y;
          y = n400 * 400 + 1;
          n100 = n div DI100Y; n = n mod DI100Y;
          n4 = n div DI4Y; n = n mod DI4Y;
          n1 = n div 365; n = n mod 365;
          y = y + n100 * 100 + n4 * 4 + n1
      in if n1 = 4 \<or> n100 = 4 then (y - 1, 12, 31)
         else
           let leapyear = (n1 = 3 \<and> (n4 \<noteq> 24 \<or> n100 = 3));
               m = (n + 50) div 32;
               preceding = DAYS_BEFORE_MONTH ! nat m + (if m > 2 \<and> leapyear then 1 else 0)
           in if preceding > n
              then let m' = m - 1;
                       preceding' = preceding
                         - (DAYS_IN_MONTH ! nat m' + (if m' = 2 \<and> leapyear then 1 else 0))
                   in (y, m', n - preceding' + 1)
              else (y, m, n - preceding + 1))"

definition toordinal :: "date \<Rightarrow> int" where
  "toordinal d = ymd2ord (year d) (month d) (day d)"

definition fromordinal :: "int \<Rightarrow> date" where
  "fromordinal n = (case ord2ymd n of (y, m, d) \<Rightarrow> \<lparr>year = y, month = m, day = d\<rparr>)"

definition tm_yday :: "date \<Rightarrow> int" where
  "tm_yday d = days_before_month (year d) (month d) + day d"

text \<open>\<open>timedelta(days=n)\<close> refuses a magnitude above 999999999 days.\<close>

definition timedelta_days :: "int \<Rightarrow> error + int" where
  "timedelta_days n = (if \<bar>n\<bar> > 999999999 then Inl OverflowError else Inr n)"

text \<open>\<open>today + timedelta(days=n)\<close>: the sum must be an ordinal of the years 1 to 9999.\<close>

definition add_days :: "date \<Rightarrow> int \<Rightarrow> error + date" where
  "add_days today n =
     (case timedelta_days n of
        Inl e \<Rightarrow> Inl e
      | Inr delta \<Rightarrow>
          let ordinal = toordinal today + delta
          in if 0 < ordinal \<and> ordinal \<le> MAXORDINAL then Inr (fromordinal ordinal)
             else Inl OverflowError)"

text \<open>
  \<open>_days_in_month\<close>, and the dates that \<open>date(year, month, day)\<close> accepts.
\<close>

definition days_in_month :: "int \<Rightarrow> int \<Rightarrow> int" where
  "days_in_month y m = (if m = 2 \<and> is_leap y then 29 else DAYS_IN_MONTH ! nat m)"

definition valid_date :: "date \<Rightarrow> bool" where
  "valid_date d \<longleftrightarrow>
     1 \<le> year d \<and> year d \<le> 9999 \<and> 1 \<le> month d \<and> month d \<le> 12 \<and>
     1 \<le> day d \<and> day d \<le> days_in_month (year d) (month d)"

section \<open>The relational store\<close>

text \<open>
  Modelled from the spec: the ORM classes \<open>Contact\<close>, \<open>User\<close> and
  \<open>Role\<close> (src/contacts/models.py, src/auth/models.py) and the request schema
  \<open>ContactsCreate\<close> (src/contacts/schemas.py) are not among the sources. Their
  columns are those of the spec's data model: every column but \<open>avatar\<close> and
  \<open>additional_info\<close> holds a value, \<open>id\<close> is the primary key, and
  \<open>email\<close> is unique in the users and in the contacts table.

  A table is the list of its rows, in the order the database returns them when a query
  asks for no ordering.
\<close>

record contact =
  id_contact :: int
  owner_id :: int
  first_name :: string
  last_name :: string
  email_contact :: string
  phone_number :: string
  birthday :: date
  additional_info :: "string option"

record role =
  id_role :: int
  name_role :: string

record user =
  id_user :: int
  username :: string
  email_user :: string
  hashed_password :: string
  is_active :: bool
  avatar :: "string option"
  role_id :: int

text \<open>
  \<open>ContactsCreate\<close>: \<open>additional_info_cc = None\<close> is a request that leaves the
  optional field out (pydantic's "unset"), \<open>Some v\<close> one that sends \<open>v\<close>.
\<close>

record contacts_create =
  first_name_cc :: string
  last_name_cc :: string
  email_cc :: string
  phone_number_cc :: string
  birthday_cc :: date
  additional_info_cc :: "string option option"

record db =
  users :: "user list"
  roles :: "role list"
  contacts :: "contact list"

text \<open>
  \<open>Result.scalar_one_or_none()\<close>: the only row, \<open>None\<close> when there is no
  row, \<open>MultipleResultsFound\<close> when there are several.
\<close>

fun scalar_one_or_none :: "'a list \<Rightarrow> error + 'a option" where
  "scalar_one_or_none [] = Inr None"
| "scalar_one_or_none [x] = Inr (Some x)"
| "scalar_one_or_none (x # y # zs) = Inl MultipleResultsFound"

section \<open>What the libraries and the deployment supply\<close>

text \<open>
  A JSON value as \<open>json.loads\<close> returns it. A number written with a fraction or an
  exponent is a float: a finite one is \<open>mantissa * 2 ^ exponent\<close>, and
  \<open>json.loads\<close> also reads \<open>Infinity\<close>, \<open>-Infinity\<close> and \<open>NaN\<close>
  (\<open>1e999\<close> reads as \<open>Infinity\<close>). An object is the list of its items.
\<close>

datatype pyfloat = Finite int int | PosInf | NegInf | NaN

datatype json =
    JNull
  | JBool bool
  | JInt int
  | JFloat pyfloat
  | JStr string
  | JList "json list"
  | JObject "(string \<times> json) list"

type_synonym claims = "(string \<times> json) list"

text \<open>
  A token string as python-jose reads it. Either the string carries a header with its
  algorithm, a payload that is a JSON object, and a signature (\<open>JWS\<close>); or
  python-jose cannot take it apart so, and \<open>Unloadable\<close> holds the exception it
  ends with: its own \<open>JWSError\<close> or \<open>JWTError\<close> (too few segments, bad padding,
  a header or a payload that is not a JSON object), or what \<open>json.loads\<close> raises
  and python-jose lets through (\<open>RecursionError\<close> for JSON nested beyond the
  interpreter's limit).
\<close>

datatype token = Unloadable error string | JWS string claims string

text \<open>
  The signing secret (text that python-jose takes, as it stands, for one HMAC key),
  the keyed hash of a header and payload (HMAC-SHA256), passlib's bcrypt context (the
  hash of a password under a salt, and the check of a password against a stored hash),
  and Python's \<open>int()\<close> on a \<open>str\<close> (\<open>None\<close> is its
  \<open>ValueError\<close>). The theorems hold for every such value.
\<close>

record env =
  SECRET_KEY :: string
  hmac :: "string \<Rightarrow> string \<times> claims \<Rightarrow> string"
  pwd_hash :: "string \<Rightarrow> string \<Rightarrow> string"
  pwd_verify :: "string \<Rightarrow> string \<Rightarrow> bool"
  int_of_str :: "string \<Rightarrow> int option"

section \<open>ContactsRepository (src/contacts/repo.py)\<close>

subsection \<open>get_upcoming_birthdays\<close>

text \<open>SQL's \<open>extract(doy from birthday)\<close>: the day of the year, 1 to 366.\<close>

definition extract_doy :: "date \<Rightarrow> int" where
  "extract_doy d = tm_yday d"

text \<open>SQL's \<open>x BETWEEN lo AND hi\<close>.\<close>

definition between_sql :: "int \<Rightarrow> int \<Rightarrow> int \<Rightarrow> bool" where
  "between_sql x lo hi = (lo \<le> x \<and> x \<le> hi)"

text \<open>\<open>today\<close> is the value of \<open>datetime.today()\<close> at the call.\<close>

definition get_upcoming_birthdays :: "db \<Rightarrow> date \<Rightarrow> int \<Rightarrow> int \<Rightarrow> error + contact list" where
  "get_upcoming_birthdays s today owner days =
     (case add_days today days of
        Inl e \<Rightarrow> Inl e
      | Inr upcoming_date \<Rightarrow>
          let today_day_of_year = tm_yday today;
              upcoming_day_of_year = tm_yday upcoming_date
          in if today_day_of_year \<le> upcoming_day_of_year
             then Inr (filter (\<lambda>c. owner_id c = owner \<and>
                         between_sql (extract_doy (birthday c)) today_day_of_year upcoming_day_of_year)
                       (contacts s))
             else Inr (filter (\<lambda>c. owner_id c = owner \<and>
                         (extract_doy (birthday c) \<ge> today_day_of_year \<or>
                          extract_doy (birthday c) \<le> upcoming_day_of_year))
                       (contacts s)))"

subsection \<open>find_contact\<close>

text \<open>
  The \<open>WHERE\<close> clause of \<open>find_contact\<close>. \<open>contact_id\<close> is
  \<open>int(identifier)\<close>, or \<open>None\<close> when that raises \<open>ValueError\<close>;
  \<open>Contact.id == None\<close> is \<open>id IS NULL\<close>, which no row satisfies.
\<close>

definition find_contact_where :: "env \<Rightarrow> int \<Rightarrow> string \<Rightarrow> contact \<Rightarrow> bool" where
  "find_contact_where e owner identifier c =
     (owner_id c = owner \<and>
      ((case int_of_str e identifier of
          None \<Rightarrow> False
        | Some contact_id \<Rightarrow> id_contact c = contact_id) \<or>
       email_contact c = identifier \<or>
       first_name c = identifier \<or>
       first_name c @ '' '' @ last_name c = identifier))"

definition find_contact :: "env \<Rightarrow> db \<Rightarrow> int \<Rightarrow> string \<Rightarrow> error + contact option" where
  "find_contact e s owner identifier =
     scalar_one_or_none (filter (find_contact_where e owner identifier) (contacts s))"

subsection \<open>search_contacts\<close>

text \<open>
  SQL's \<open>LIKE\<close>: in the pattern \<open>%\<close> stands for any run of characters,
  \<open>_\<close> for any one character, and a backslash makes the character after it
  literal (PostgreSQL's default escape). \<open>ILIKE\<close> compares without regard to
  case; SQLAlchemy renders it as \<open>lower(x) LIKE lower(pattern)\<close> where the backend
  has no \<open>ILIKE\<close>.
\<close>

fun like_match :: "string \<Rightarrow> string \<Rightarrow> bool" where
  "like_match [] s = (s = [])"
| "like_match (p # ps) s =
     (if p = CHR ''%'' then
        like_match ps s \<or> (case s of [] \<Rightarrow> False | c # t \<Rightarrow> like_match (p # ps) t)
      else if p = CHR ''_'' then
        (case s of [] \<Rightarrow> False | c # t \<Rightarrow> like_match ps t)
      else if p = CHR 0x5C then
        (case ps of
           [] \<Rightarrow> False
         | q # qs \<Rightarrow> (case s of [] \<Rightarrow> False | c # t \<Rightarrow> c = q \<and> like_match qs t))
      else
        (case s of [] \<Rightarrow> False | c # t \<Rightarrow> c = p \<and> like_match ps t))"

definition lower_char :: "char \<Rightarrow> char" where
  "lower_char c =
     (if (65::nat) \<le> of_char c \<and> of_char c \<le> (90::nat)
      then char_of (of_char c + (32::nat)) else c)"

definition lower :: "string \<Rightarrow> string" where
  "lower s = map lower_char s"

definition ilike :: "string \<Rightarrow> string \<Rightarrow> bool" where
  "ilike x pattern = like_match (lower pattern) (lower x)"

definition search_contacts :: "db \<Rightarrow> int \<Rightarrow> string \<Rightarrow> contact list" where
  "search_contacts s owner query =
     filter (\<lambda>c. owner_id c = owner \<and>
               (ilike (first_name c) (''%'' @ query @ ''%'') \<or>
                ilike (last_name c) (''%'' @ query @ ''%'') \<or>
                ilike (email_contact c) (''%'' @ query @ ''%'')))
            (contacts s)"


subsection \<open>The other queries and writes of the repository\<close>

text \<open>
  \<open>limit\<close> and \<open>offset\<close> are natural numbers here: what a negative one
  does depends on the database.
\<close>

definition get_contacts :: "db \<Rightarrow> int \<Rightarrow> nat \<Rightarrow> nat \<Rightarrow> contact list" where
  "get_contacts s owner limit offset =
     take limit (drop offset (filter (\<lambda>c. owner_id c = owner) (contacts s)))"

definition get_contacts_all :: "db \<Rightarrow> nat \<Rightarrow> nat \<Rightarrow> contact list" where
  "get_contacts_all s limit offset = take limit (drop offset (contacts s))"

definition get_contact_by_id :: "db \<Rightarrow> int \<Rightarrow> error + contact option" where
  "get_contact_by_id s contact_id =
     scalar_one_or_none (filter (\<lambda>c. id_contact c = contact_id) (contacts s))"

text \<open>The primary key the database gives a new row: one it has not used in the table.\<close>

definition next_id :: "int list \<Rightarrow> int" where
  "next_id ids = fold max ids 0 + 1"

text \<open>
  \<open>create_contacts\<close>: the commit fails with \<open>IntegrityError\<close> when the email
  is taken (the unique column of the spec's data model). A request that leaves
  \<open>additional_info\<close> out stores none.
\<close>

definition create_contacts :: "db \<Rightarrow> contacts_create \<Rightarrow> int \<Rightarrow> (error + contact) \<times> db" where
  "create_contacts s contact owner =
     (let new_contact =
            \<lparr>id_contact = next_id (map id_contact (contacts s)),
             owner_id = owner,
             first_name = first_name_cc contact,
             last_name = last_name_cc contact,
             email_contact = email_cc contact,
             phone_number = phone_number_cc contact,
             birthday = birthday_cc contact,
             additional_info = (case additional_info_cc contact of None \<Rightarrow> None | Some v \<Rightarrow> v)\<rparr>
      in if email_cc contact \<in> set (map email_contact (contacts s))
         then (Inl IntegrityError, s)
         else (Inr new_contact, s\<lparr>contacts := contacts s @ [new_contact]\<rparr>))"

definition delete_contact :: "db \<Rightarrow> int \<Rightarrow> db" where
  "delete_contact s contact_id =
     s\<lparr>contacts := filter (\<lambda>c. id_contact c \<noteq> contact_id) (contacts s)\<rparr>"

subsection \<open>update_contact\<close>

text \<open>
  \<open>contact_update.model_dump(exclude_unset=True)\<close> written to one row: the
  required fields always, \<open>additional_info\<close> only when the request sent it.
\<close>

definition apply_update :: "contacts_create \<Rightarrow> contact \<Rightarrow> contact" where
  "apply_update contact_update c =
     c\<lparr>first_name := first_name_cc contact_update,
       last_name := last_name_cc contact_update,
       email_contact := email_cc contact_update,
       phone_number := phone_number_cc contact_update,
       birthday := birthday_cc contact_update,
       additional_info :=
         (case additional_info_cc contact_update of
            None \<Rightarrow> additional_info c
          | Some v \<Rightarrow> v)\<rparr>"

text \<open>The check of \<open>update_contact\<close> that the new email is not another contact's.\<close>

definition email_check :: "db \<Rightarrow> contact \<Rightarrow> contacts_create \<Rightarrow> error + unit" where
  "email_check s contact contact_update =
     (if email_cc contact_update \<noteq> []
      then (case scalar_one_or_none
                   (filter (\<lambda>c. email_contact c = email_cc contact_update) (contacts s)) of
              Inl e \<Rightarrow> Inl e
            | Inr None \<Rightarrow> Inr ()
            | Inr (Some existing_contact) \<Rightarrow>
                if id_contact existing_contact \<noteq> id_contact contact
                then Inl (ValueError ''Email already in use'')
                else Inr ())
      else Inr ())"

definition update_contact ::
  "env \<Rightarrow> db \<Rightarrow> string \<Rightarrow> int \<Rightarrow> contacts_create \<Rightarrow> (error + contact option) \<times> db" where
  "update_contact e s identifier owner contact_update =
     (case find_contact e s owner identifier of
        Inl e \<Rightarrow> (Inl e, s)
      | Inr None \<Rightarrow> (Inr None, s)
      | Inr (Some contact) \<Rightarrow>
          (case email_check s contact contact_update of
             Inl e \<Rightarrow> (Inl e, s)
           | Inr u \<Rightarrow>
               if \<exists>c \<in> set (contacts s).
                    id_contact c \<noteq> id_contact contact \<and> email_contact c = email_cc contact_update
               then (Inl IntegrityError, s)
               else
                 let rows = map (\<lambda>c. if id_contact c = id_contact contact
                                      then apply_update contact_update c else c) (contacts s)
                 in (Inr (List.find (\<lambda>c. id_contact c = id_contact contact) rows),
                     s\<lparr>contacts := rows\<rparr>)))"

section \<open>Tokens (src/auth/utils.py over python-jose)\<close>

text \<open>
  A point in time is the number of microseconds since 1970-01-01T00:00:00Z, a
  \<open>timedelta\<close> a number of microseconds. Python's \<open>datetime\<close> covers the years
  1 to 9999; a sum outside them raises \<open>OverflowError\<close>.
\<close>

type_synonym datetime = int
type_synonym timedelta = int

definition DATETIME_MIN :: datetime where "DATETIME_MIN = - 62135596800000000"
definition DATETIME_MAX :: datetime where "DATETIME_MAX = 253402300799999999"

definition datetime_add :: "datetime \<Rightarrow> timedelta \<Rightarrow> error + datetime" where
  "datetime_add t delta =
     (if DATETIME_MIN \<le> t + delta \<and> t + delta \<le> DATETIME_MAX then Inr (t + delta)
      else Inl OverflowError)"

definition minutes_td :: "int \<Rightarrow> timedelta" where "minutes_td n = n * 60000000"
definition hours_td :: "int \<Rightarrow> timedelta" where "hours_td n = n * 3600000000"
definition days_td :: "int \<Rightarrow> timedelta" where "days_td n = n * 86400000000"

text \<open>\<open>timegm(t.utctimetuple())\<close>: whole seconds since the epoch, the microseconds dropped.\<close>

definition timegm :: "datetime \<Rightarrow> int" where
  "timegm t = t div 1000000"

definition ALGORITHM :: string where "ALGORITHM = ''HS256''"
definition ACCESS_TOKEN_EXPIRE_MINUTES :: int where "ACCESS_TOKEN_EXPIRE_MINUTES = 30"
definition REFRESH_TOKEN_EXPIRE_DAYS :: int where "REFRESH_TOKEN_EXPIRE_DAYS = 7"
definition VERIFICATION_TOKEN_HOUSE :: int where "VERIFICATION_TOKEN_HOUSE = 24"

text \<open>
  The values of a claims dictionary before encoding; a dictionary is the list of its
  items in insertion order.
\<close>

datatype py_value = PStr string | PInt int | PDatetime datetime

subsection \<open>jose.jwt.encode and jose.jwt.decode\<close>

definition time_claim :: "string \<times> py_value \<Rightarrow> string \<times> py_value" where
  "time_claim kv =
     (case kv of
        (k, PDatetime t) \<Rightarrow>
          if k \<in> set [''exp'', ''iat'', ''nbf''] then (k, PInt (timegm t)) else (k, PDatetime t)
      | (k, v) \<Rightarrow> (k, v))"

fun json_dumps :: "(string \<times> py_value) list \<Rightarrow> error + claims" where
  "json_dumps [] = Inr []"
| "json_dumps ((k, v) # kvs) =
     (case v of
        PDatetime t \<Rightarrow> Inl TypeError
      | PStr x \<Rightarrow> (case json_dumps kvs of Inl e \<Rightarrow> Inl e | Inr js \<Rightarrow> Inr ((k, JStr x) # js))
      | PInt n \<Rightarrow> (case json_dumps kvs of Inl e \<Rightarrow> Inl e | Inr js \<Rightarrow> Inr ((k, JInt n) # js)))"

definition jwt_encode :: "env \<Rightarrow> (string \<times> py_value) list \<Rightarrow> string \<Rightarrow> string \<Rightarrow> error + token" where
  "jwt_encode e to_encode key algorithm =
     (case json_dumps (map time_claim to_encode) of
        Inl err \<Rightarrow> Inl err
      | Inr payload \<Rightarrow> Inr (JWS algorithm payload (hmac e key (algorithm, payload))))"

text \<open>
  \<open>int(claims[k])\<close> inside the claim checks, for each JSON value. \<open>Inr None\<close>
  is the \<open>ValueError\<close> that the checks catch; \<open>TypeError\<close> and
  \<open>OverflowError\<close> they do not catch. A float is cut towards zero.
\<close>

definition int_of_float :: "int \<Rightarrow> int \<Rightarrow> int" where
  "int_of_float m ex =
     (if 0 \<le> ex then m * 2 ^ nat ex
      else if 0 \<le> m then m div 2 ^ nat (- ex)
      else - ((- m) div 2 ^ nat (- ex)))"

fun int_claim :: "env \<Rightarrow> json \<Rightarrow> error + int option" where
  "int_claim e JNull = Inl TypeError"
| "int_claim e (JBool b) = Inr (Some (if b then 1 else 0))"
| "int_claim e (JInt n) = Inr (Some n)"
| "int_claim e (JFloat (Finite m ex)) = Inr (Some (int_of_float m ex))"
| "int_claim e (JFloat PosInf) = Inl OverflowError"
| "int_claim e (JFloat NegInf) = Inl OverflowError"
| "int_claim e (JFloat NaN) = Inr None"
| "int_claim e (JStr x) = Inr (int_of_str e x)"
| "int_claim e (JList xs) = Inl TypeError"
| "int_claim e (JObject kvs) = Inl TypeError"

definition is_str :: "json \<Rightarrow> bool" where
  "is_str v = (case v of JStr x \<Rightarrow> True | _ \<Rightarrow> False)"

text \<open>
  The checks of \<open>jwt.decode\<close> with its default options and no audience, issuer,
  subject or access token given, in its order: iat, nbf, exp, aud, sub, jti, at_hash.
  The first exception ends them.
\<close>

definition validate_iat :: "env \<Rightarrow> claims \<Rightarrow> error + unit" where
  "validate_iat e c =
     (case map_of c ''iat'' of
        None \<Rightarrow> Inr ()
      | Some v \<Rightarrow>
          (case int_claim e v of
             Inl err \<Rightarrow> Inl err
           | Inr None \<Rightarrow> Inl JWTClaimsError
           | Inr (Some n) \<Rightarrow> Inr ()))"

definition validate_nbf :: "env \<Rightarrow> claims \<Rightarrow> int \<Rightarrow> error + unit" where
  "validate_nbf e c now =
     (case map_of c ''nbf'' of
        None \<Rightarrow> Inr ()
      | Some v \<Rightarrow>
          (case int_claim e v of
             Inl err \<Rightarrow> Inl err
           | Inr None \<Rightarrow> Inl JWTClaimsError
           | Inr (Some nbf) \<Rightarrow> if nbf > now then Inl JWTClaimsError else Inr ()))"

definition validate_exp :: "env \<Rightarrow> claims \<Rightarrow> int \<Rightarrow> error + unit" where
  "validate_exp e c now =
     (case map_of c ''exp'' of
        None \<Rightarrow> Inr ()
      | Some v \<Rightarrow>
          (case int_claim e v of
             Inl err \<Rightarrow> Inl err
           | Inr None \<Rightarrow> Inl JWTClaimsError
           | Inr (Some exp) \<Rightarrow> if exp < now then Inl ExpiredSignatureError else Inr ()))"

definition validate_aud :: "claims \<Rightarrow> error + unit" where
  "validate_aud c = (case map_of c ''aud'' of None \<Rightarrow> Inr () | Some v \<Rightarrow> Inl JWTClaimsError)"

definition validate_sub :: "claims \<Rightarrow> error + unit" where
  "validate_sub c =
     (case map_of c ''sub'' of
        None \<Rightarrow> Inr ()
      | Some v \<Rightarrow> if is_str v then Inr () else Inl JWTClaimsError)"

definition validate_jti :: "claims \<Rightarrow> error + unit" where
  "validate_jti c =
     (case map_of c ''jti'' of
        None \<Rightarrow> Inr ()
      | Some v \<Rightarrow> if is_str v then Inr () else Inl JWTClaimsError)"

definition validate_at_hash :: "claims \<Rightarrow> error + unit" where
  "validate_at_hash c =
     (case map_of c ''at_hash'' of None \<Rightarrow> Inr () | Some v \<Rightarrow> Inl JWTClaimsError)"

fun first_error :: "(error + unit) list \<Rightarrow> error + unit" where
  "first_error [] = Inr ()"
| "first_error (Inl e # rs) = Inl e"
| "first_error (Inr u # rs) = first_error rs"

definition validate_claims :: "env \<Rightarrow> claims \<Rightarrow> int \<Rightarrow> error + unit" where
  "validate_claims e c now =
     first_error [validate_iat e c, validate_nbf e c now, validate_exp e c now, validate_aud c,
                  validate_sub c, validate_jti c, validate_at_hash c]"

text \<open>
  \<open>now\<close> is the clock at the call; the checks compare whole seconds. A
  \<open>JWSError\<close> leaves \<open>jwt.decode\<close> as a \<open>JWTError\<close>.
\<close>

definition jwt_decode :: "env \<Rightarrow> datetime \<Rightarrow> token \<Rightarrow> string \<Rightarrow> string list \<Rightarrow> error + claims" where
  "jwt_decode e now tok key algorithms =
     (case tok of
        Unloadable err x \<Rightarrow> Inl (if err = JWSError then JWTError else err)
      | JWS alg payload signature \<Rightarrow>
          if alg \<notin> set algorithms then Inl JWTError
          else if hmac e key (alg, payload) \<noteq> signature then Inl JWTError
          else (case validate_claims e payload (timegm now) of
                  Inl err \<Rightarrow> Inl err
                | Inr u \<Rightarrow> Inr payload))"

subsection \<open>The token functions of src/auth/utils.py\<close>

definition create_verification_token :: "env \<Rightarrow> datetime \<Rightarrow> string \<Rightarrow> error + token" where
  "create_verification_token e now email =
     (case datetime_add now (hours_td VERIFICATION_TOKEN_HOUSE) of
        Inl err \<Rightarrow> Inl err
      | Inr expire \<Rightarrow>
          jwt_encode e [(''exp'', PDatetime expire), (''sub'', PStr email)] (SECRET_KEY e) ALGORITHM)"

text \<open>
  \<open>payload.get("sub")\<close>: the value, Python's \<open>None\<close> when the key is missing
  or its value is \<open>null\<close>.
\<close>

definition dict_get :: "claims \<Rightarrow> string \<Rightarrow> json option" where
  "dict_get payload k =
     (case map_of payload k of None \<Rightarrow> None | Some JNull \<Rightarrow> None | Some v \<Rightarrow> Some v)"

text \<open>
  \<open>except JWTError\<close> answers \<open>None\<close>; every other exception of
  \<open>jwt.decode\<close> goes on to the caller.
\<close>

definition decode_verification_token :: "env \<Rightarrow> datetime \<Rightarrow> token \<Rightarrow> error + json option" where
  "decode_verification_token e now tok =
     (case jwt_decode e now tok (SECRET_KEY e) [ALGORITHM] of
        Inl err \<Rightarrow> if isinstance_JWTError err then Inr None else Inl err
      | Inr payload \<Rightarrow> Inr (dict_get payload ''sub''))"

text \<open>
  \<open>if expires_delta:\<close> is false for \<open>None\<close> and for a \<open>timedelta\<close> of zero.
\<close>

definition create_access_token ::
  "env \<Rightarrow> datetime \<Rightarrow> (string \<times> py_value) list \<Rightarrow> timedelta option \<Rightarrow> error + token" where
  "create_access_token e now data expires_delta =
     (case (if expires_delta \<noteq> None \<and> expires_delta \<noteq> Some 0
            then datetime_add now (the expires_delta)
            else datetime_add now (minutes_td ACCESS_TOKEN_EXPIRE_MINUTES)) of
        Inl err \<Rightarrow> Inl err
      | Inr expire \<Rightarrow>
          jwt_encode e (AList.update ''exp'' (PDatetime expire) data) (SECRET_KEY e) ALGORITHM)"

definition create_refresh_token ::
  "env \<Rightarrow> datetime \<Rightarrow> (string \<times> py_value) list \<Rightarrow> timedelta option \<Rightarrow> error + token" where
  "create_refresh_token e now data expires_delta =
     (case (if expires_delta \<noteq> None \<and> expires_delta \<noteq> Some 0
            then datetime_add now (the expires_delta)
            else datetime_add now (days_td REFRESH_TOKEN_EXPIRE_DAYS)) of
        Inl err \<Rightarrow> Inl err
      | Inr expire \<Rightarrow>
          jwt_encode e (AList.update ''exp'' (PDatetime expire) data) (SECRET_KEY e) ALGORITHM)"

record token_data =
  username_td :: "string option"

text \<open>
  \<open>TokenData(username=username)\<close> validates its field: a value that is not a string
  is pydantic's \<open>ValidationError\<close>, which no handler here catches.
\<close>

definition decode_access_token :: "env \<Rightarrow> datetime \<Rightarrow> token \<Rightarrow> error + token_data option" where
  "decode_access_token e now tok =
     (case jwt_decode e now tok (SECRET_KEY e) [ALGORITHM] of
        Inl err \<Rightarrow> if isinstance_JWTError err then Inr None else Inl err
      | Inr payload \<Rightarrow>
          (case dict_get payload ''sub'' of
             None \<Rightarrow> Inr None
           | Some (JStr name) \<Rightarrow> Inr (Some \<lparr>username_td = Some name\<rparr>)
           | Some v \<Rightarrow> Inl ValidationError))"

section \<open>UserRepository and RoleRepository (src/auth/repo.py)\<close>

datatype RoleEnum = USER | ADMIN

fun role_value :: "RoleEnum \<Rightarrow> string" where
  "role_value USER = ''user''"
| "role_value ADMIN = ''admin''"

text \<open>\<open>UserCreate\<close> of src/auth/schemas.py.\<close>

record user_create =
  username_uc :: string
  email_uc :: string
  password_uc :: string
  role_uc :: RoleEnum

definition get_password_hash :: "env \<Rightarrow> string \<Rightarrow> string \<Rightarrow> string" where
  "get_password_hash e salt password = pwd_hash e salt password"

definition verify_password :: "env \<Rightarrow> string \<Rightarrow> string \<Rightarrow> bool" where
  "verify_password e password hashed = pwd_verify e password hashed"

definition get_role_by_name :: "db \<Rightarrow> RoleEnum \<Rightarrow> error + role option" where
  "get_role_by_name s name =
     scalar_one_or_none (filter (\<lambda>r. name_role r = role_value name) (roles s))"

text \<open>
  \<open>create_user\<close>: \<open>salt\<close> is the salt bcrypt draws for this hash. A role that
  is not in the table makes \<open>user_role.id\<close> an \<open>AttributeError\<close>; the commit fails
  with \<open>IntegrityError\<close> when the email is taken.
\<close>

definition create_user :: "env \<Rightarrow> db \<Rightarrow> string \<Rightarrow> user_create \<Rightarrow> (error + user) \<times> db" where
  "create_user e s salt uc =
     (let hashed = get_password_hash e salt (password_uc uc)
      in case get_role_by_name s (role_uc uc) of
           Inl err \<Rightarrow> (Inl err, s)
         | Inr None \<Rightarrow> (Inl AttributeError, s)
         | Inr (Some user_role) \<Rightarrow>
             let new_user =
                   \<lparr>id_user = next_id (map id_user (users s)),
                    username = username_uc uc,
                    email_user = email_uc uc,
                    hashed_password = hashed,
                    is_active = False,
                    avatar = None,
                    role_id = id_role user_role\<rparr>
             in if email_uc uc \<in> set (map email_user (users s))
                then (Inl IntegrityError, s)
                else (Inr new_user, s\<lparr>users := users s @ [new_user]\<rparr>))"

definition get_user :: "db \<Rightarrow> string \<Rightarrow> error + user option" where
  "get_user s name = scalar_one_or_none (filter (\<lambda>u. username u = name) (users s))"

text \<open>
  \<open>get_user_by_email\<close> receives whatever its caller decoded: \<open>None\<close> (the
  comparison is then \<open>email IS NULL\<close>) matches no row, and only a string equals
  an email.
\<close>

definition get_user_by_email :: "db \<Rightarrow> json option \<Rightarrow> error + user option" where
  "get_user_by_email s email =
     scalar_one_or_none (filter (\<lambda>u. Some (JStr (email_user u)) = email) (users s))"

definition activate_user :: "db \<Rightarrow> user \<Rightarrow> db" where
  "activate_user s usr =
     s\<lparr>users := map (\<lambda>u. if id_user u = id_user usr then u\<lparr>is_active := True\<rparr> else u) (users s)\<rparr>"

definition update_avatar :: "db \<Rightarrow> string \<Rightarrow> string \<Rightarrow> (error + user) \<times> db" where
  "update_avatar s email url =
     (case scalar_one_or_none (filter (\<lambda>u. email_user u = email) (users s)) of
        Inl err \<Rightarrow> (Inl err, s)
      | Inr None \<Rightarrow> (Inl (HTTPException HTTP_404_NOT_FOUND), s)
      | Inr (Some usr) \<Rightarrow>
          (Inr (usr\<lparr>avatar := Some url\<rparr>),
           s\<lparr>users := map (\<lambda>u. if id_user u = id_user usr then u\<lparr>avatar := Some url\<rparr> else u)
                          (users s)\<rparr>))"

section \<open>Authentication and authorisation (src/auth/utils.py)\<close>

definition get_current_user :: "env \<Rightarrow> db \<Rightarrow> datetime \<Rightarrow> token \<Rightarrow> error + user" where
  "get_current_user e s now tok =
     (case decode_access_token e now tok of
        Inl err \<Rightarrow> Inl err
      | Inr None \<Rightarrow> Inl (HTTPException HTTP_401_UNAUTHORIZED)
      | Inr (Some td) \<Rightarrow>
          (case get_user_by_email s (map_option JStr (username_td td)) of
             Inl err \<Rightarrow> Inl err
           | Inr None \<Rightarrow> Inl (HTTPException HTTP_401_UNAUTHORIZED)
           | Inr (Some usr) \<Rightarrow> Inr usr))"

text \<open>\<open>user.role\<close>: the row of the roles table the user's \<open>role_id\<close> names.\<close>

definition role_of :: "db \<Rightarrow> user \<Rightarrow> role option" where
  "role_of s u = List.find (\<lambda>r. id_role r = role_id u) (roles s)"

text \<open>
  \<open>RoleChecker(allowed_roles)(token, db)\<close>. A user without a role makes
  \<open>user.role.name\<close> an \<open>AttributeError\<close>.
\<close>

definition RoleChecker :: "RoleEnum list \<Rightarrow> env \<Rightarrow> db \<Rightarrow> datetime \<Rightarrow> token \<Rightarrow> error + user" where
  "RoleChecker allowed_roles e s now tok =
     (case get_current_user e s now tok of
        Inl err \<Rightarrow> Inl err
      | Inr usr \<Rightarrow>
          (case role_of s usr of
             None \<Rightarrow> Inl AttributeError
           | Some r \<Rightarrow>
               if name_role r \<notin> set (map role_value allowed_roles)
               then Inl (HTTPException HTTP_403_FORBIDDEN)
               else Inr usr))"

text \<open>
  \<open>RateLimiter(times=10, seconds=60)\<close> counts in Redis; \<open>over_limit\<close> says
  whether the request is past the limit, which answers 429.
\<close>

definition RateLimiter :: "bool \<Rightarrow> error + unit" where
  "RateLimiter over_limit = (if over_limit then Inl (HTTPException 429) else Inr ())"

section \<open>The auth router (src/auth/routers.py)\<close>

text \<open>
  The status of a response: the status the route declares for success
  (\<open>status_code=status.HTTP_201_CREATED\<close> on \<open>/register\<close> and \<open>/token\<close>,
  200 otherwise), or that of the exception.
\<close>

definition HTTP_201_CREATED :: nat where "HTTP_201_CREATED = 201"
definition HTTP_200_OK :: nat where "HTTP_200_OK = 200"

definition response_status :: "nat \<Rightarrow> error + 'a \<Rightarrow> nat" where
  "response_status success r = (case r of Inl err \<Rightarrow> status_code err | Inr x \<Rightarrow> success)"

text \<open>
  A handler that writes returns its response and the store after it. \<open>register\<close>
  answers with the user; the verification mail (address and token) is its background
  task.
\<close>

definition register ::
  "env \<Rightarrow> db \<Rightarrow> datetime \<Rightarrow> string \<Rightarrow> user_create \<Rightarrow> (error + user \<times> string \<times> token) \<times> db" where
  "register e s now salt uc =
     (case get_user_by_email s (Some (JStr (email_uc uc))) of
        Inl err \<Rightarrow> (Inl err, s)
      | Inr (Some existing) \<Rightarrow> (Inl (HTTPException HTTP_409_CONFLICT), s)
      | Inr None \<Rightarrow>
          (case create_user e s salt uc of
             (Inl err, s') \<Rightarrow> (Inl err, s')
           | (Inr usr, s') \<Rightarrow>
               (case create_verification_token e now (email_user usr) of
                  Inl err \<Rightarrow> (Inl err, s')
                | Inr verification_token \<Rightarrow>
                    (Inr (usr, email_user usr, verification_token), s'))))"

definition verify_email :: "env \<Rightarrow> db \<Rightarrow> datetime \<Rightarrow> token \<Rightarrow> (error + string) \<times> db" where
  "verify_email e s now tok =
     (case decode_verification_token e now tok of
        Inl err \<Rightarrow> (Inl err, s)
      | Inr email \<Rightarrow>
          (case get_user_by_email s email of
             Inl err \<Rightarrow> (Inl err, s)
           | Inr None \<Rightarrow> (Inl (HTTPException HTTP_404_NOT_FOUND), s)
           | Inr (Some usr) \<Rightarrow> (Inr ''Email verified successfully'', activate_user s usr)))"

text \<open>
  The response of \<open>login_for_token\<close>. Both tokens are created at one reading
  of the clock.
\<close>

record token_pair =
  access_token :: token
  refresh_token :: token
  token_type :: string

definition login_for_token ::
  "env \<Rightarrow> db \<Rightarrow> datetime \<Rightarrow> string \<Rightarrow> string \<Rightarrow> error + token_pair" where
  "login_for_token e s now form_username form_password =
     (case get_user_by_email s (Some (JStr form_username)) of
        Inl err \<Rightarrow> Inl err
      | Inr None \<Rightarrow> Inl (HTTPException HTTP_401_UNAUTHORIZED)
      | Inr (Some usr) \<Rightarrow>
          if \<not> verify_password e form_password (hashed_password usr)
          then Inl (HTTPException HTTP_401_UNAUTHORIZED)
          else
            (case create_access_token e now [(''sub'', PStr (email_user usr))] None of
               Inl err \<Rightarrow> Inl err
             | Inr access \<Rightarrow>
                 (case create_refresh_token e now [(''sub'', PStr (email_user usr))] None of
                    Inl err \<Rightarrow> Inl err
                  | Inr refresh \<Rightarrow>
                      Inr \<lparr>access_token = access, refresh_token = refresh,
                           token_type = ''bearer''\<rparr>)))"

text \<open>
  \<open>update_avatar_user\<close>: \<open>upload\<close> is what Cloudinary answered (an exception,
  no URL, or the URL). Every exception inside the \<open>try\<close> becomes a 500.
\<close>

definition update_avatar_user ::
  "env \<Rightarrow> db \<Rightarrow> datetime \<Rightarrow> token \<Rightarrow> error + string option \<Rightarrow> (error + user) \<times> db" where
  "update_avatar_user e s now tok upload =
     (case get_current_user e s now tok of
        Inl err \<Rightarrow> (Inl err, s)
      | Inr current_user \<Rightarrow>
          (case upload of
             Inl err \<Rightarrow> (Inl (HTTPException HTTP_500_INTERNAL_SERVER_ERROR), s)
           | Inr None \<Rightarrow> (Inl (HTTPException HTTP_500_INTERNAL_SERVER_ERROR), s)
           | Inr (Some url) \<Rightarrow>
               if url = [] then (Inl (HTTPException HTTP_500_INTERNAL_SERVER_ERROR), s)
               else
                 (case update_avatar s (email_user current_user) url of
                    (Inl err, s') \<Rightarrow> (Inl (HTTPException HTTP_500_INTERNAL_SERVER_ERROR), s')
                  | (Inr usr, s') \<Rightarrow> (Inr usr, s'))))"

section \<open>The contacts router (src/contacts/routers.py)\<close>

text \<open>
  The dependencies of a route run in the order the decorator lists them, then those of
  the handler's parameters; the first exception ends the request.
\<close>

definition create_contacts_route ::
  "env \<Rightarrow> db \<Rightarrow> datetime \<Rightarrow> token \<Rightarrow> bool \<Rightarrow> contacts_create \<Rightarrow> (error + contact) \<times> db" where
  "create_contacts_route e s now tok over_limit contact =
     (case RoleChecker [USER, ADMIN] e s now tok of
        Inl err \<Rightarrow> (Inl err, s)
      | Inr checked \<Rightarrow>
          (case RateLimiter over_limit of
             Inl err \<Rightarrow> (Inl err, s)
           | Inr u \<Rightarrow>
               (case get_current_user e s now tok of
                  Inl err \<Rightarrow> (Inl err, s)
                | Inr current_user \<Rightarrow> create_contacts s contact (id_user current_user))))"

definition get_contacts_route ::
  "env \<Rightarrow> db \<Rightarrow> datetime \<Rightarrow> token \<Rightarrow> bool \<Rightarrow> nat \<Rightarrow> nat \<Rightarrow> error + contact list" where
  "get_contacts_route e s now tok over_limit limit offset =
     (case RoleChecker [USER, ADMIN] e s now tok of
        Inl err \<Rightarrow> Inl err
      | Inr checked \<Rightarrow>
          (case RateLimiter over_limit of
             Inl err \<Rightarrow> Inl err
           | Inr u \<Rightarrow>
               (case get_current_user e s now tok of
                  Inl err \<Rightarrow> Inl err
                | Inr current_user \<Rightarrow> Inr (get_contacts s (id_user current_user) limit offset))))"

definition get_contacts_all_route ::
  "env \<Rightarrow> db \<Rightarrow> datetime \<Rightarrow> token \<Rightarrow> bool \<Rightarrow> nat \<Rightarrow> nat \<Rightarrow> error + contact list" where
  "get_contacts_all_route e s now tok over_limit limit offset =
     (case RoleChecker [ADMIN] e s now tok of
        Inl err \<Rightarrow> Inl err
      | Inr checked \<Rightarrow>
          (case RateLimiter over_limit of
             Inl err \<Rightarrow> Inl err
           | Inr u \<Rightarrow> Inr (get_contacts_all s limit offset)))"

definition search_contacts_route ::
  "env \<Rightarrow> db \<Rightarrow> datetime \<Rightarrow> token \<Rightarrow> bool \<Rightarrow> string \<Rightarrow> error + contact list" where
  "search_contacts_route e s now tok over_limit query =
     (case RoleChecker [USER, ADMIN] e s now tok of
        Inl err \<Rightarrow> Inl err
      | Inr checked \<Rightarrow>
          (case RateLimiter over_limit of
             Inl err \<Rightarrow> Inl err
           | Inr u \<Rightarrow>
               (case get_current_user e s now tok of
                  Inl err \<Rightarrow> Inl err
                | Inr current_user \<Rightarrow> Inr (search_contacts s (id_user current_user) query))))"

text \<open>\<open>delete_contact\<close> answers with a message naming the deleted id.\<close>

definition delete_contact_route ::
  "env \<Rightarrow> db \<Rightarrow> datetime \<Rightarrow> token \<Rightarrow> int \<Rightarrow> (error + int) \<times> db" where
  "delete_contact_route e s now tok contact_id =
     (case RoleChecker [ADMIN] e s now tok of
        Inl err \<Rightarrow> (Inl err, s)
      | Inr checked \<Rightarrow>
          (case get_contact_by_id s contact_id of
             Inl err \<Rightarrow> (Inl err, s)
           | Inr None \<Rightarrow> (Inl (HTTPException HTTP_404_NOT_FOUND), s)
           | Inr (Some c) \<Rightarrow> (Inr contact_id, delete_contact s contact_id)))"

definition get_upcoming_birthdays_route ::
  "env \<Rightarrow> db \<Rightarrow> datetime \<Rightarrow> date \<Rightarrow> token \<Rightarrow> int \<Rightarrow> error + contact list" where
  "get_upcoming_birthdays_route e s now today tok n =
     (case get_current_user e s now tok of
        Inl err \<Rightarrow> Inl err
      | Inr current_user \<Rightarrow> get_upcoming_birthdays s today (id_user current_user) n)"

definition update_contact_route ::
  "env \<Rightarrow> db \<Rightarrow> datetime \<Rightarrow> token \<Rightarrow> string \<Rightarrow> contacts_create \<Rightarrow> (error + contact) \<times> db" where
  "update_contact_route e s now tok identifier contact_update =
     (case get_current_user e s now tok of
        Inl err \<Rightarrow> (Inl err, s)
      | Inr current_user \<Rightarrow>
          (case update_contact e s identifier (id_user current_user) contact_update of
             (Inl err, s') \<Rightarrow> (Inl err, s')
           | (Inr None, s') \<Rightarrow> (Inl (HTTPException HTTP_404_NOT_FOUND), s')
           | (Inr (Some updated_contact), s') \<Rightarrow> (Inr updated_contact, s')))"

section \<open>The service as a transition system\<close>

text \<open>
  The requests that can write to the store, with what the outside world contributes to
  each; \<open>step\<close> is the store after a request. Login and the read-only routes return
  no store: they leave it as it is.
\<close>

datatype request =
    Register string user_create
  | VerifyEmail token
  | Login string string
  | UpdateAvatar token "error + string option"
  | CreateContact token bool contacts_create
  | UpdateContact token string contacts_create
  | DeleteContact token int

fun step :: "env \<Rightarrow> datetime \<Rightarrow> request \<Rightarrow> db \<Rightarrow> db" where
  "step e now (Register salt uc) s = snd (register e s now salt uc)"
| "step e now (VerifyEmail tok) s = snd (verify_email e s now tok)"
| "step e now (Login form_username form_password) s = s"
| "step e now (UpdateAvatar tok upload) s = snd (update_avatar_user e s now tok upload)"
| "step e now (CreateContact tok over_limit contact) s =
     snd (create_contacts_route e s now tok over_limit contact)"
| "step e now (UpdateContact tok identifier contact_update) s =
     snd (update_contact_route e s now tok identifier contact_update)"
| "step e now (DeleteContact tok contact_id) s = snd (delete_contact_route e s now tok contact_id)"

text \<open>A run: requests with the clock at each, applied in order.\<close>

fun run :: "env \<Rightarrow> (datetime \<times> request) list \<Rightarrow> db \<Rightarrow> db" where
  "run e [] s = s"
| "run e ((now, req) # rest) s = run e rest (step e now req s)"

section \<open>The spec's vocabulary\<close>



text \<open>
  The remaining lifetime of an access token at issuance: the \<open>expires_delta\<close> the
  caller gave, or the default of 30 minutes (lemma \<open>create_access_token_payload\<close>
  shows that this is the expiry \<open>create_access_token\<close> writes).
\<close>

definition access_lifetime :: "timedelta option \<Rightarrow> timedelta" where
  "access_lifetime expires_delta =
     (case expires_delta of
        None \<Rightarrow> minutes_td ACCESS_TOKEN_EXPIRE_MINUTES
      | Some d \<Rightarrow> if d = 0 then minutes_td ACCESS_TOKEN_EXPIRE_MINUTES else d)"

section \<open>Example data\<close>

definition ann :: contact where
  "ann = \<lparr>id_contact = 1, owner_id = 1, first_name = ''Ann'', last_name = ''Lee'',
           email_contact = ''ann@example.com'', phone_number = ''111'',
           birthday = \<lparr>year = 1990, month = 1, day = 2\<rparr>, additional_info = None\<rparr>"

definition bob :: contact where
  "bob = \<lparr>id_contact = 2, owner_id = 1, first_name = ''Bob'', last_name = ''Ray'',
           email_contact = ''bob@example.com'', phone_number = ''222'',
           birthday = \<lparr>year = 1985, month = 6, day = 3\<rparr>, additional_info = None\<rparr>"

definition cid :: contact where
  "cid = \<lparr>id_contact = 3, owner_id = 2, first_name = ''Cid'', last_name = ''Poe'',
           email_contact = ''cid@example.com'', phone_number = ''333'',
           birthday = \<lparr>year = 2001, month = 1, day = 2\<rparr>, additional_info = None\<rparr>"

text \<open>
  Two contacts of owner 1 that the text \<open>Mary Ann\<close> names: one by her first
  name, one by his first and last name.
\<close>

definition mary_ann :: contact where
  "mary_ann = \<lparr>id_contact = 4, owner_id = 1, first_name = ''Mary Ann'', last_name = ''Lee'',
           email_contact = ''mal@example.com'', phone_number = ''444'',
           birthday = \<lparr>year = 1970, month = 9, day = 9\<rparr>, additional_info = None\<rparr>"

definition mary :: contact where
  "mary = \<lparr>id_contact = 5, owner_id = 1, first_name = ''Mary'', last_name = ''Ann'',
           email_contact = ''ma@example.com'', phone_number = ''555'',
           birthday = \<lparr>year = 1971, month = 10, day = 10\<rparr>, additional_info = None\<rparr>"

definition role_user :: role where
  "role_user = \<lparr>id_role = 1, name_role = ''user''\<rparr>"

definition role_admin :: role where
  "role_admin = \<lparr>id_role = 2, name_role = ''admin''\<rparr>"

definition eve :: user where
  "eve = \<lparr>id_user = 1, username = ''eve'', email_user = ''eve@example.com'',
           hashed_password = ''s1pw-eve'', is_active = False, avatar = None, role_id = 1\<rparr>"

definition root :: user where
  "root = \<lparr>id_user = 2, username = ''root'', email_user = ''root@example.com'',
            hashed_password = ''s2pw-root'', is_active = True, avatar = None, role_id = 2\<rparr>"

definition example_db :: db where
  "example_db = \<lparr>users = [eve, root], roles = [role_user, role_admin],
                  contacts = [ann, bob, cid]\<rparr>"

definition two_marys_db :: db where
  "two_marys_db = \<lparr>users = [eve, root], roles = [role_user, role_admin],
                    contacts = [ann, bob, cid, mary_ann, mary]\<rparr>"

text \<open>
  \<open>int()\<close> on ASCII text: ASCII whitespace around the number is dropped, one sign
  is allowed, the digits may be separated by single underscores, and more than 4300
  digits are refused (CPython's default limit). \<open>None\<close> is \<open>ValueError\<close>.
  Outside ASCII \<open>int()\<close> also reads the decimal digits and the spaces of other
  scripts; \<open>ascii_int\<close> does not, and stands for \<open>int()\<close> in the examples only.
\<close>

definition is_space :: "char \<Rightarrow> bool" where
  "is_space c = (c \<in> set [CHR '' '', CHR 0x09, CHR 0x0A, CHR 0x0B, CHR 0x0C, CHR 0x0D])"

definition strip :: "string \<Rightarrow> string" where
  "strip s = rev (dropWhile is_space (rev (dropWhile is_space s)))"

definition digit_of :: "char \<Rightarrow> int option" where
  "digit_of c = map_of (zip ''0123456789'' [0, 1, 2, 3, 4, 5, 6, 7, 8, 9]) c"

fun parse_digits :: "string \<Rightarrow> int \<Rightarrow> bool \<Rightarrow> int option" where
  "parse_digits [] acc after_digit = (if after_digit then Some acc else None)"
| "parse_digits (c # cs) acc after_digit =
     (case digit_of c of
        Some d \<Rightarrow> parse_digits cs (10 * acc + d) True
      | None \<Rightarrow>
          if c = CHR ''_'' \<and> after_digit then parse_digits cs acc False else None)"

definition MAX_STR_DIGITS :: nat where "MAX_STR_DIGITS = 4300"

definition ascii_int :: "string \<Rightarrow> int option" where
  "ascii_int s =
     (case strip s of
        [] \<Rightarrow> None
      | c # cs \<Rightarrow>
          let body = (if c = CHR ''-'' \<or> c = CHR ''+'' then cs else c # cs)
          in if length (filter (\<lambda>d. digit_of d \<noteq> None) body) > MAX_STR_DIGITS then None
             else if c = CHR ''-'' then map_option uminus (parse_digits body 0 False)
             else parse_digits body 0 False)"

text \<open>
  An environment to evaluate the definitions in: a stand-in keyed hash, a stand-in
  password hash with a two-character salt, and \<open>ascii_int\<close>.
\<close>

definition example_env :: env where
  "example_env =
     \<lparr>SECRET_KEY = ''k3y'',
      hmac = (\<lambda>key m. key @ fst m @ concat (map fst (snd m))),
      pwd_hash = (\<lambda>salt password. salt @ password),
      pwd_verify = (\<lambda>password hashed. drop 2 hashed = password),
      int_of_str = ascii_int\<rparr>"

text \<open>Tokens of \<open>example_env\<close>, with the clock at 1000.5 s when they are issued.\<close>

definition fresh_token :: token where
  "fresh_token = JWS ''HS256'' [(''sub'', JStr ''eve@example.com''), (''exp'', JInt 2800)]
                   ''k3yHS256subexp''"

definition lapsed_token :: token where
  "lapsed_token = JWS ''HS256'' [(''sub'', JStr ''eve@example.com''), (''exp'', JInt 1000)]
                    ''k3yHS256subexp''"

definition old_token :: token where
  "old_token = JWS ''HS256'' [(''sub'', JStr ''eve@example.com''), (''exp'', JInt 940)]
                 ''k3yHS256subexp''"

text \<open>A token signed with the secret whose \<open>exp\<close> is \<open>null\<close>.\<close>

definition null_exp_token :: token where
  "null_exp_token = JWS ''HS256'' [(''sub'', JStr ''eve@example.com''), (''exp'', JNull)]
                      ''k3yHS256subexp''"

definition root_token :: token where
  "root_token = JWS ''HS256'' [(''sub'', JStr ''root@example.com''), (''exp'', JInt 2800)]
                  ''k3yHS256subexp''"

definition week_token :: token where
  "week_token = JWS ''HS256'' [(''sub'', JStr ''eve@example.com''), (''exp'', JInt 605800)]
                  ''k3yHS256subexp''"

text \<open>A registration, the user it creates in \<open>example_db\<close> and its verification token.\<close>

definition kim_create :: user_create where
  "kim_create = \<lparr>username_uc = ''kim'', email_uc = ''kim@example.com'',
                  password_uc = ''pw-kim'', role_uc = USER\<rparr>"

definition kim :: user where
  "kim = \<lparr>id_user = 3, username = ''kim'', email_user = ''kim@example.com'',
           hashed_password = ''s3pw-kim'', is_active = False, avatar = None, role_id = 1\<rparr>"

definition kim_token :: token where
  "kim_token = JWS ''HS256'' [(''exp'', JInt 87400), (''sub'', JStr ''kim@example.com'')]
                 ''k3yHS256expsub''"

text \<open>An update of Ann's contact that asks for Bob's email, and one that asks for a free one.\<close>

definition ann_takes_bobs_email :: contacts_create where
  "ann_takes_bobs_email =
     \<lparr>first_name_cc = ''Ann'', last_name_cc = ''Lee'', email_cc = ''bob@example.com'',
      phone_number_cc = ''111'', birthday_cc = \<lparr>year = 1990, month = 1, day = 2\<rparr>,
      additional_info_cc = None\<rparr>"

definition ann_new_email :: contacts_create where
  "ann_new_email =
     \<lparr>first_name_cc = ''Ann'', last_name_cc = ''Lee'', email_cc = ''lee@example.com'',
      phone_number_cc = ''111'', birthday_cc = \<lparr>year = 1990, month = 1, day = 2\<rparr>,
      additional_info_cc = None\<rparr>"

section \<open>Calendar arithmetic\<close>

lemma div_qr:
  fixes k q r :: int
  assumes "0 \<le> r" "r < k"
  shows "(k * q + r) div k = q"
proof -
  have "k \<noteq> 0" using assms by auto
  then have "(k * q + r) div k = q + r div k" by (rule div_mult_self4)
  moreover have "r div k = 0" using assms by (simp add: div_pos_pos_trivial)
  ultimately show ?thesis by simp
qed

lemma mod_qr:
  fixes k q r :: int
  assumes "0 \<le> r" "r < k"
  shows "(k * q + r) mod k = r"
proof -
  have "(k * q + r) mod k = r mod k" by (rule mod_mult_self4)
  then show ?thesis using assms by (simp add: mod_pos_pos_trivial)
qed

lemma div_step:
  fixes y k :: int
  assumes "0 < k"
  shows "y div k = (y - 1) div k + (if y mod k = 0 then 1 else 0)"
proof (cases "y mod k = 0")
  case True
  define q where "q = y div k"
  have y: "y = k * q" using True mult_div_mod_eq [of k y] by (simp add: q_def)
  have e: "y - 1 = k * (q - 1) + (k - 1)" unfolding y by (simp add: algebra_simps)
  have "(y - 1) div k = q - 1"
    by (subst e, rule div_qr) (use assms in auto)
  then show ?thesis using True by (simp add: q_def)
next
  case False
  define r where "r = y mod k"
  define q where "q = y div k"
  have y: "y = k * q + r" by (simp add: q_def r_def)
  have "0 \<le> r" "r < k" using assms by (simp_all add: r_def)
  with False have r: "0 < r" "r < k" by (simp_all add: r_def)
  have e: "y - 1 = k * q + (r - 1)" unfolding y by simp
  have "(y - 1) div k = q"
    by (subst e, rule div_qr) (use r in auto)
  then show ?thesis using False by (simp add: q_def)
qed

lemma mod_400_100: "(y::int) mod 400 = 0 \<Longrightarrow> y mod 100 = 0"
proof -
  assume "y mod 400 = 0"
  then have "400 dvd y" by (simp add: mod_eq_0_iff_dvd)
  moreover have "(100::int) dvd 400" by simp
  ultimately have "100 dvd y" by (rule dvd_trans [rotated])
  then show ?thesis by (simp add: mod_eq_0_iff_dvd)
qed
lemma mod_100_4: "(y::int) mod 100 = 0 \<Longrightarrow> y mod 4 = 0"
proof -
  assume "y mod 100 = 0"
  then have "100 dvd y" by (simp add: mod_eq_0_iff_dvd)
  moreover have "(4::int) dvd 100" by simp
  ultimately have "4 dvd y" by (rule dvd_trans [rotated])
  then show ?thesis by (simp add: mod_eq_0_iff_dvd)
qed

lemma days_before_year_next:
  "days_before_year (y + 1) = days_before_year y + (if is_leap y then 366 else 365)"
proof -
  have s: "y div 4 = (y - 1) div 4 + (if y mod 4 = 0 then 1 else 0)"
       "y div 100 = (y - 1) div 100 + (if y mod 100 = 0 then 1 else 0)"
       "y div 400 = (y - 1) div 400 + (if y mod 400 = 0 then 1 else 0)"
    by (rule div_step, simp)+
  define A :: int where "A = (if y mod 4 = 0 then 1 else 0)"
  define B :: int where "B = (if y mod 100 = 0 then 1 else 0)"
  define C :: int where "C = (if y mod 400 = 0 then 1 else 0)"
  have "days_before_year (y + 1) = y * 365 + y div 4 - y div 100 + y div 400"
    by (simp add: days_before_year_def)
  also have "\<dots> = y * 365 + ((y - 1) div 4 + A) - ((y - 1) div 100 + B) + ((y - 1) div 400 + C)"
    by (simp only: s A_def B_def C_def)
  also have "\<dots> = days_before_year y + 365 + (A - B + C)"
    by (simp add: days_before_year_def Let_def algebra_simps)
  also have "A - B + C = (if is_leap y then 1 else 0)"
  proof (cases "y mod 4 = 0")
    case False
    with mod_400_100 mod_100_4 show ?thesis by (auto simp: is_leap_def A_def B_def C_def)
  next
    case True
    show ?thesis
    proof (cases "y mod 100 = 0")
      case False
      with True mod_400_100 show ?thesis by (auto simp: is_leap_def A_def B_def C_def)
    next
      case h: True
      with True show ?thesis by (simp add: is_leap_def A_def B_def C_def)
    qed
  qed
  finally show ?thesis by simp
qed


lemma days_before_year_cycle:
  assumes "0 \<le> d" "d \<le> 3" "0 \<le> c" "c \<le> 24" "0 \<le> b" "b \<le> 3"
  shows "days_before_year (400 * a + 100 * b + 4 * c + d + 1)
           = 146097 * a + 36524 * b + 1461 * c + 365 * d"
proof -
  have e4: "400 * a + 100 * b + 4 * c + d = 4 * (100 * a + 25 * b + c) + d" by simp
  have e100: "400 * a + 100 * b + 4 * c + d = 100 * (4 * a + b) + (4 * c + d)" by simp
  have e400: "400 * a + 100 * b + 4 * c + d = 400 * a + (100 * b + 4 * c + d)" by simp
  have d4: "(400 * a + 100 * b + 4 * c + d) div 4 = 100 * a + 25 * b + c"
    by (subst e4, rule div_qr) (use assms in auto)
  have d100: "(400 * a + 100 * b + 4 * c + d) div 100 = 4 * a + b"
    by (subst e100, rule div_qr) (use assms in auto)
  have d400: "(400 * a + 100 * b + 4 * c + d) div 400 = a"
    by (subst e400, rule div_qr) (use assms in auto)
  show ?thesis
    by (simp add: days_before_year_def d4 d100 d400)
qed

lemma is_leap_cycle:
  assumes "0 \<le> d" "d \<le> 3" "0 \<le> c" "c \<le> 24" "0 \<le> b" "b \<le> 3"
  shows "is_leap (400 * a + 100 * b + 4 * c + d + 1) \<longleftrightarrow> d = 3 \<and> (c \<noteq> 24 \<or> b = 3)"
proof (cases "d = 3")
  case False
  have e: "400 * a + 100 * b + 4 * c + d + 1 = 4 * (100 * a + 25 * b + c) + (d + 1)" by simp
  have "(400 * a + 100 * b + 4 * c + d + 1) mod 4 = d + 1"
    by (subst e, rule mod_qr) (use assms False in auto)
  with assms False show ?thesis by (simp add: is_leap_def)
next
  case True
  have e4: "400 * a + 100 * b + 4 * c + d + 1 = 4 * (100 * a + 25 * b + c + 1) + 0"
    using True by simp
  have m4: "(400 * a + 100 * b + 4 * c + d + 1) mod 4 = 0"
    by (subst e4, rule mod_qr) auto
  show ?thesis
  proof (cases "c = 24")
    case False
    have e: "400 * a + 100 * b + 4 * c + d + 1 = 100 * (4 * a + b) + (4 * c + 4)"
      using True by simp
    have "(400 * a + 100 * b + 4 * c + d + 1) mod 100 = 4 * c + 4"
      by (subst e, rule mod_qr) (use assms False in auto)
    with assms True False m4 show ?thesis by (simp add: is_leap_def)
  next
    case c: True
    have e: "400 * a + 100 * b + 4 * c + d + 1 = 100 * (4 * a + b + 1) + 0"
      using True c by simp
    have m100: "(400 * a + 100 * b + 4 * c + d + 1) mod 100 = 0"
      by (subst e, rule mod_qr) auto
    show ?thesis
    proof (cases "b = 3")
      case False
      have e': "400 * a + 100 * b + 4 * c + d + 1 = 400 * a + (100 * b + 100)"
        using True c by simp
      have "(400 * a + 100 * b + 4 * c + d + 1) mod 400 = 100 * b + 100"
        by (subst e', rule mod_qr) (use assms False in auto)
      with assms True c False m4 m100 show ?thesis by (simp add: is_leap_def)
    next
      case b: True
      have e': "400 * a + 100 * b + 4 * c + d + 1 = 400 * (a + 1) + 0"
        using True c b by simp
      have "(400 * a + 100 * b + 4 * c + d + 1) mod 400 = 0"
        by (subst e', rule mod_qr) auto
      with True c b m4 m100 show ?thesis by (simp add: is_leap_def)
    qed
  qed
qed

lemma yday_of_month_split:
  assumes "1 \<le> m" "m \<le> 12" "0 \<le> r"
  shows "tm_yday
          (if DAYS_BEFORE_MONTH ! nat m + (if m > 2 \<and> is_leap y then 1 else 0) > r
           then \<lparr>year = y, month = m - 1,
                  day = r - (DAYS_BEFORE_MONTH ! nat m + (if m > 2 \<and> is_leap y then 1 else 0)
                             - (DAYS_IN_MONTH ! nat (m - 1)
                                + (if m - 1 = 2 \<and> is_leap y then 1 else 0))) + 1\<rparr>
           else \<lparr>year = y, month = m,
                  day = r - (DAYS_BEFORE_MONTH ! nat m
                             + (if m > 2 \<and> is_leap y then 1 else 0)) + 1\<rparr>) = r + 1"
proof -
  from assms(1,2) have "m = 1 \<or> m = 2 \<or> m = 3 \<or> m = 4 \<or> m = 5 \<or> m = 6 \<or> m = 7 \<or> m = 8
      \<or> m = 9 \<or> m = 10 \<or> m = 11 \<or> m = 12" by arith
  then show ?thesis
    using assms(3)
    by (elim disjE)
       (simp_all add: tm_yday_def days_before_month_def DAYS_BEFORE_MONTH_def DAYS_IN_MONTH_def)
qed


lemma fromordinal_year_day:
  assumes "1 \<le> ord"
  shows "days_before_year (year (fromordinal ord)) + tm_yday (fromordinal ord) = ord
         \<and> 1 \<le> tm_yday (fromordinal ord)
         \<and> tm_yday (fromordinal ord) \<le> (if is_leap (year (fromordinal ord)) then 366 else 365)"
proof -
  define n where "n = ord - 1"
  define q400 where "q400 = n div 146097"
  define r1 where "r1 = n mod 146097"
  define q100 where "q100 = r1 div 36524"
  define r2 where "r2 = r1 mod 36524"
  define q4 where "q4 = r2 div 1461"
  define r3 where "r3 = r2 mod 1461"
  define q1 where "q1 = r3 div 365"
  define r4 where "r4 = r3 mod 365"
  have n: "n = 146097 * q400 + r1" and r1: "0 \<le> r1" "r1 < 146097"
    by (simp_all add: q400_def r1_def)
  have r1e: "r1 = 36524 * q100 + r2" and r2: "0 \<le> r2" "r2 < 36524"
    by (simp_all add: q100_def r2_def)
  have r2e: "r2 = 1461 * q4 + r3" and r3: "0 \<le> r3" "r3 < 1461"
    by (simp_all add: q4_def r3_def)
  have r3e: "r3 = 365 * q1 + r4" and r4: "0 \<le> r4" "r4 < 365"
    by (simp_all add: q1_def r4_def)
  have q100: "0 \<le> q100" "q100 \<le> 4" using r1 r1e r2 by arith+
  have q4: "0 \<le> q4" "q4 \<le> 24" using r2 r2e r3 by arith+
  have q1: "0 \<le> q1" "q1 \<le> 4" using r3 r3e r4 by arith+
  have ord: "ord = 146097 * q400 + 36524 * q100 + 1461 * q4 + 365 * q1 + r4 + 1"
    using n r1e r2e r3e by (simp add: n_def)
  define leapyear where "leapyear \<longleftrightarrow> q1 = 3 \<and> (q4 \<noteq> 24 \<or> q100 = 3)"
  define m where "m = (r4 + 50) div 32"
  define Y where "Y = q400 * 400 + 1 + q100 * 100 + q4 * 4 + q1"
  define y where "y = 400 * q400 + 100 * q100 + 4 * q4 + q1 + 1"
  define P where "P = DAYS_BEFORE_MONTH ! nat m + (if m > 2 \<and> leapyear then 1 else 0)"
  have Yy: "Y = y" by (simp add: Y_def y_def)
  have triple: "ord2ymd ord =
      (if q1 = 4 \<or> q100 = 4 then (Y - 1, 12, 31)
       else if P > r4
           then (Y, m - 1,
                  r4 - (P - (DAYS_IN_MONTH ! nat (m - 1)
                                + (if m - 1 = 2 \<and> leapyear then 1 else 0))) + 1)
           else (Y, m, r4 - P + 1))"
    unfolding ord2ymd_def Let_def DI400Y_def DI100Y_def DI4Y_def
      Y_def P_def m_def leapyear_def r4_def q1_def r3_def q4_def r2_def q100_def r1_def q400_def
      n_def
    by (rule refl)
  have unfolded: "fromordinal ord =
      (if q1 = 4 \<or> q100 = 4 then \<lparr>year = y - 1, month = 12, day = 31\<rparr>
       else if P > r4
           then \<lparr>year = y, month = m - 1,
                  day = r4 - (P - (DAYS_IN_MONTH ! nat (m - 1)
                                + (if m - 1 = 2 \<and> leapyear then 1 else 0))) + 1\<rparr>
           else \<lparr>year = y, month = m, day = r4 - P + 1\<rparr>)"
    unfolding fromordinal_def triple Yy by simp
  show ?thesis
  proof (cases "q1 = 4 \<or> q100 = 4")
    case True
    then have d: "fromordinal ord = \<lparr>year = y - 1, month = 12, day = 31\<rparr>"
      by (simp add: unfolded)
    have yr: "year (fromordinal ord) = y - 1" by (simp add: d)
    have yd: "is_leap (y - 1) \<Longrightarrow> tm_yday (fromordinal ord) = 366"
      by (simp add: d tm_yday_def days_before_month_def DAYS_BEFORE_MONTH_def)
    from True show ?thesis
    proof
      assume a: "q100 = 4"
      with r1 r1e r2 have "r2 = 0" by arith
      with r2e r3 q4 have "q4 = 0" "r3 = 0" by arith+
      with r3e r4 q1 have "q1 = 0" "r4 = 0" by arith+
      note z = a \<open>q4 = 0\<close> \<open>q1 = 0\<close> \<open>r4 = 0\<close>
      have yy: "y - 1 = 400 * q400 + 100 * 3 + 4 * 24 + 3 + 1" by (simp add: y_def z)
      have dby: "days_before_year (y - 1) = 146097 * q400 + 36524 * 3 + 1461 * 24 + 365 * 3"
        unfolding yy by (rule days_before_year_cycle) simp_all
      have leap: "is_leap (y - 1)"
        unfolding yy by (subst is_leap_cycle) simp_all
      show ?thesis
        unfolding yr yd [OF leap] using leap dby by (simp add: ord z)
    next
      assume a: "q1 = 4"
      with r3 r3e r4 have z: "r4 = 0" by arith
      from a r2 r2e r3e r4 have c: "q4 \<le> 23" by arith
      show ?thesis
      proof (cases "q100 = 4")
        case True
        with r1 r1e r2 have "r2 = 0" by arith
        with r2e r3 q4 have "r3 = 0" by arith
        with r3e r4 q1 have "q1 = 0" by arith
        with a show ?thesis by simp
      next
        case False
        with q100 have b: "q100 \<le> 3" by simp
        have yy: "y - 1 = 400 * q400 + 100 * q100 + 4 * q4 + 3 + 1" by (simp add: y_def a)
        have dby: "days_before_year (y - 1)
                     = 146097 * q400 + 36524 * q100 + 1461 * q4 + 365 * 3"
          unfolding yy by (rule days_before_year_cycle) (use q100 b q4 c in simp_all)
        have leap: "is_leap (y - 1)"
          unfolding yy by (subst is_leap_cycle) (use q100 b q4 c in simp_all)
        show ?thesis
          unfolding yr yd [OF leap] using leap dby by (simp add: ord a z)
      qed
    qed
  next
    case False
    with q1 q100 have b: "q1 \<le> 3" "q100 \<le> 3" by simp_all
    have leap: "is_leap y \<longleftrightarrow> leapyear"
      unfolding y_def leapyear_def by (rule is_leap_cycle) (use q1 q4 q100 b in simp_all)
    have dby: "days_before_year y = 146097 * q400 + 36524 * q100 + 1461 * q4 + 365 * q1"
      unfolding y_def by (rule days_before_year_cycle) (use q1 q4 q100 b in simp_all)
    have m: "1 \<le> m" "m \<le> 12"
      using r4 unfolding m_def by simp_all
    have yr: "year (fromordinal ord) = y"
      using False by (simp add: unfolded)
    have yd: "tm_yday (fromordinal ord) = r4 + 1"
    proof -
      have "fromordinal ord =
         (if P > r4
           then \<lparr>year = y, month = m - 1,
                  day = r4 - (P - (DAYS_IN_MONTH ! nat (m - 1)
                                + (if m - 1 = 2 \<and> leapyear then 1 else 0))) + 1\<rparr>
           else \<lparr>year = y, month = m, day = r4 - P + 1\<rparr>)"
        using False by (simp add: unfolded)
      then show ?thesis
        unfolding P_def leap [symmetric] by (simp only: yday_of_month_split [OF m r4(1)])
    qed
    show ?thesis
      unfolding yr yd using r4 dby by (simp add: ord)
  qed
qed


lemma valid_date_year_day:
  assumes "valid_date d"
  shows "toordinal d = days_before_year (year d) + tm_yday d
         \<and> 1 \<le> tm_yday d \<and> tm_yday d \<le> (if is_leap (year d) then 366 else 365)"
proof -
  from assms have m: "1 \<le> month d" "month d \<le> 12" by (simp_all add: valid_date_def)
  then have "month d = 1 \<or> month d = 2 \<or> month d = 3 \<or> month d = 4 \<or> month d = 5
      \<or> month d = 6 \<or> month d = 7 \<or> month d = 8 \<or> month d = 9 \<or> month d = 10
      \<or> month d = 11 \<or> month d = 12" by arith
  then have "1 \<le> tm_yday d \<and> tm_yday d \<le> (if is_leap (year d) then 366 else 365)"
    using assms
    by (elim disjE)
       (simp_all add: valid_date_def days_in_month_def tm_yday_def days_before_month_def
          DAYS_BEFORE_MONTH_def DAYS_IN_MONTH_def split: if_splits)
  then show ?thesis
    by (simp add: toordinal_def ymd2ord_def tm_yday_def)
qed

lemma days_before_year_add:
  "days_before_year a + 365 * int k \<le> days_before_year (a + int k)"
proof (induction k)
  case 0
  then show ?case by simp
next
  case (Suc k)
  have "a + int (Suc k) = (a + int k) + 1" by simp
  then have "days_before_year (a + int (Suc k)) = days_before_year ((a + int k) + 1)"
    by (rule arg_cong)
  also have "\<dots> \<ge> days_before_year (a + int k) + 365"
    unfolding days_before_year_next by simp
  finally show ?case using Suc by simp
qed

lemma days_before_year_mono:
  assumes "a \<le> b"
  shows "days_before_year a + 365 * (b - a) \<le> days_before_year b"
  using days_before_year_add [of a "nat (b - a)"] assms by simp

lemma same_or_next_year:
  assumes "valid_date today" "0 \<le> n" "n < 365" "add_days today n = Inr upcoming"
  shows "(tm_yday today \<le> tm_yday upcoming \<longleftrightarrow> year upcoming = year today)
       \<and> (tm_yday upcoming < tm_yday today \<longleftrightarrow> year upcoming = year today + 1)"
proof -
  from assms(2-4) have up: "upcoming = fromordinal (toordinal today + n)"
      and pos: "0 < toordinal today + n"
    by (auto simp: add_days_def timedelta_days_def Let_def split: if_splits)
  define yt where "yt = year today"
  define dt where "dt = tm_yday today"
  define yu where "yu = year upcoming"
  define du where "du = tm_yday upcoming"
  from valid_date_year_day [OF assms(1)]
  have t: "toordinal today = days_before_year yt + dt" "1 \<le> dt"
      "dt \<le> (if is_leap yt then 366 else 365)"
    by (simp_all add: yt_def dt_def)
  from pos have "1 \<le> toordinal today + n" by simp
  from fromordinal_year_day [OF this]
  have u: "days_before_year yu + du = toordinal today + n" "1 \<le> du"
      "du \<le> (if is_leap yu then 366 else 365)"
    by (simp_all add: yu_def du_def up)
  have eq: "days_before_year yt + dt + n = days_before_year yu + du"
    using t(1) u(1) by simp
  have next_t: "days_before_year (yt + 1) = days_before_year yt + (if is_leap yt then 366 else 365)"
    by (rule days_before_year_next)
  have next_u: "days_before_year (yu + 1) = days_before_year yu + (if is_leap yu then 366 else 365)"
    by (rule days_before_year_next)
  have not_before: "yt \<le> yu"
  proof (rule ccontr)
    assume "\<not> yt \<le> yu"
    then have "yu + 1 \<le> yt" by simp
    from days_before_year_mono [OF this] have "days_before_year (yu + 1) \<le> days_before_year yt"
      using \<open>yu + 1 \<le> yt\<close> by simp
    with next_u eq t(2) u(3) assms(2) show False by (simp split: if_splits)
  qed
  have not_after: "yu \<le> yt + 1"
  proof (rule ccontr)
    assume "\<not> yu \<le> yt + 1"
    then have far: "yt + 1 \<le> yu" "1 \<le> yu - (yt + 1)" by simp_all
    from days_before_year_mono [OF far(1)] far(2)
    have "days_before_year (yt + 1) + 365 \<le> days_before_year yu"
      by arith
    with next_t eq t(3) u(2) assms(3) show False by (simp split: if_splits)
  qed
  from not_before not_after have "yu = yt \<or> yu = yt + 1" by arith
  then show ?thesis
  proof
    assume same: "yu = yt"
    with eq have "du = dt + n" by simp
    with assms(2) same show ?thesis
      by (simp add: yt_def dt_def yu_def du_def [symmetric])
  next
    assume nxt: "yu = yt + 1"
    with eq next_t have "du = dt + n - (if is_leap yt then 366 else 365)" by simp
    with assms(3) have "du < dt" by (simp split: if_splits)
    with nxt show ?thesis
      by (simp add: yt_def dt_def yu_def du_def [symmetric])
  qed
qed


section \<open>Evaluation rules\<close>

lemmas date_eval =
  add_days_def timedelta_days_def toordinal_def ymd2ord_def days_before_year_def
  days_before_month_def DAYS_BEFORE_MONTH_def DAYS_IN_MONTH_def is_leap_def MAXORDINAL_def
  fromordinal_def ord2ymd_def DI400Y_def DI100Y_def DI4Y_def tm_yday_def extract_doy_def
  between_sql_def Let_def

lemmas contact_eval = ann_def bob_def cid_def mary_ann_def mary_def

lemmas ascii_int_eval = ascii_int_def strip_def is_space_def digit_of_def MAX_STR_DIGITS_def Let_def

lemmas user_eval = example_db_def eve_def root_def role_user_def role_admin_def kim_def
  kim_create_def

section \<open>Upcoming birthdays\<close>

lemma add_days_dec_28:
  "add_days \<lparr>year = 2023, month = 12, day = 28\<rparr> 7 = Inr \<lparr>year = 2024, month = 1, day = 4\<rparr>"
  by (simp add: date_eval)

text \<open>
  C1 (amended). Whenever \<open>today + timedelta(days)\<close> is a date Python can represent,
  \<open>get_upcoming_birthdays\<close> returns exactly the owner's contacts whose birthday's
  day of the year lies in the closed interval from today's day of the year to that of
  today+days when the first is at most the second, and otherwise those whose day of the
  year is at least today's or at most that of today+days. The birthday enters only
  through its day of the year. For a window of 0 to 364 days the first case is the
  window that ends in today's year and the second the window that ends in the next.
\<close>

theorem get_upcoming_birthdays_window:
  assumes "add_days today n = Inr upcoming"
  shows "get_upcoming_birthdays s today owner n =
     Inr (filter (\<lambda>c. owner_id c = owner \<and>
            (if tm_yday today \<le> tm_yday upcoming
             then tm_yday today \<le> tm_yday (birthday c) \<and> tm_yday (birthday c) \<le> tm_yday upcoming
             else tm_yday today \<le> tm_yday (birthday c) \<or> tm_yday (birthday c) \<le> tm_yday upcoming))
          (contacts s))
     \<and> (valid_date today \<and> 0 \<le> n \<and> n < 365 \<longrightarrow>
          (tm_yday today \<le> tm_yday upcoming \<longleftrightarrow> year upcoming = year today) \<and>
          (tm_yday upcoming < tm_yday today \<longleftrightarrow> year upcoming = year today + 1))"
proof
  show "get_upcoming_birthdays s today owner n =
     Inr (filter (\<lambda>c. owner_id c = owner \<and>
            (if tm_yday today \<le> tm_yday upcoming
             then tm_yday today \<le> tm_yday (birthday c) \<and> tm_yday (birthday c) \<le> tm_yday upcoming
             else tm_yday today \<le> tm_yday (birthday c) \<or> tm_yday (birthday c) \<le> tm_yday upcoming))
          (contacts s))"
    using assms by (simp add: get_upcoming_birthdays_def extract_doy_def between_sql_def Let_def)
  show "valid_date today \<and> 0 \<le> n \<and> n < 365 \<longrightarrow>
          (tm_yday today \<le> tm_yday upcoming \<longleftrightarrow> year upcoming = year today) \<and>
          (tm_yday upcoming < tm_yday today \<longleftrightarrow> year upcoming = year today + 1)"
    using same_or_next_year [OF _ _ _ assms] by blast
qed

theorem get_upcoming_birthdays_window_witness:
  "add_days \<lparr>year = 2023, month = 12, day = 28\<rparr> 7 = Inr \<lparr>year = 2024, month = 1, day = 4\<rparr>
   \<and> valid_date \<lparr>year = 2023, month = 12, day = 28\<rparr> \<and> (0::int) \<le> 7 \<and> (7::int) < 365
   \<and> get_upcoming_birthdays example_db \<lparr>year = 2023, month = 12, day = 28\<rparr> 1 7 = Inr [ann]
   \<and> tm_yday \<lparr>year = 2024, month = 1, day = 4\<rparr> < tm_yday \<lparr>year = 2023, month = 12, day = 28\<rparr>"
proof -
  have v: "valid_date \<lparr>year = 2023, month = 12, day = 28\<rparr>"
    by (simp add: valid_date_def days_in_month_def DAYS_IN_MONTH_def)
  from get_upcoming_birthdays_window [OF add_days_dec_28, of example_db 1] v
  show ?thesis
    by (simp add: add_days_dec_28 example_db_def contact_eval tm_yday_def days_before_month_def
        DAYS_BEFORE_MONTH_def is_leap_def)
qed

text \<open>
  The claim as stated, for every value of days, fails: ten million days from
  2024-06-01 is past the year 9999, the sum raises \<open>OverflowError\<close> and nothing is
  returned.
\<close>

theorem get_upcoming_birthdays_overflow:
  "get_upcoming_birthdays example_db \<lparr>year = 2024, month = 6, day = 1\<rparr> 1 10000000
     = Inl OverflowError"
  by (simp add: get_upcoming_birthdays_def date_eval)

text \<open>The spec's examples: seven days from June 1, and seven days from December 28.\<close>

lemma upcoming_birthdays_june_1:
  "get_upcoming_birthdays example_db \<lparr>year = 2023, month = 6, day = 1\<rparr> 1 7 = Inr [bob]"
  by (simp add: get_upcoming_birthdays_def date_eval example_db_def contact_eval)

lemma upcoming_birthdays_dec_28:
  "get_upcoming_birthdays example_db \<lparr>year = 2023, month = 12, day = 28\<rparr> 1 7 = Inr [ann]"
  by (simp add: get_upcoming_birthdays_def date_eval example_db_def contact_eval)

text \<open>
  Which branch runs is decided by the two days of the year alone. 400 days from
  2023-06-01 is 2024-07-05: the window has crossed a year boundary, the interval branch
  runs all the same, and a birthday on January 2 is left out.
\<close>

lemma upcoming_birthdays_400_days:
  "get_upcoming_birthdays example_db \<lparr>year = 2023, month = 6, day = 1\<rparr> 1 400 = Inr [bob]"
  by (simp add: get_upcoming_birthdays_def date_eval example_db_def contact_eval)

section \<open>Identifier resolution\<close>

text \<open>
  C2 (amended). \<open>find_contact\<close> selects the owner's contacts whose id is the
  integer \<open>int(identifier)\<close> returns (when it returns one), or whose email, first
  name or first name, space, last name is the identifier; the four conditions are tried
  together, whether or not the identifier parses. It returns \<open>None\<close> when no row is
  selected, the contact when exactly one is, and raises \<open>MultipleResultsFound\<close>
  when several are: there is no first match. This holds whatever \<open>int()\<close> makes of
  each string.
\<close>

theorem find_contact_one_or_none:
  "find_contact e s owner identifier =
     (let selected = filter (\<lambda>c. owner_id c = owner \<and>
                          (int_of_str e identifier = Some (id_contact c) \<or>
                           email_contact c = identifier \<or>
                           first_name c = identifier \<or>
                           first_name c @ '' '' @ last_name c = identifier)) (contacts s)
      in if selected = [] then Inr None
         else if length selected = 1 then Inr (Some (hd selected))
         else Inl MultipleResultsFound)"
proof -
  have w: "find_contact_where e owner identifier =
        (\<lambda>c. owner_id c = owner \<and>
              (int_of_str e identifier = Some (id_contact c) \<or>
               email_contact c = identifier \<or>
               first_name c = identifier \<or>
               first_name c @ '' '' @ last_name c = identifier))"
    by (auto simp: find_contact_where_def fun_eq_iff split: option.splits)
  have one: "scalar_one_or_none xs =
        (if xs = [] then Inr None else if length xs = 1 then Inr (Some (hd xs))
         else Inl MultipleResultsFound)" for xs :: "contact list"
    by (cases xs rule: scalar_one_or_none.cases) simp_all
  show ?thesis
    unfolding find_contact_def w Let_def by (rule one)
qed

text \<open>
  The claim as stated fails: of the contacts of owner 1, the identifier \<open>Mary Ann\<close>
  matches one by the first-name condition and another by the full-name condition, and
  the lookup raises instead of returning the first of them.
\<close>

theorem find_contact_two_conditions:
  "first_name mary_ann = ''Mary Ann'' \<and>
   first_name mary @ '' '' @ last_name mary = ''Mary Ann'' \<and>
   find_contact example_env two_marys_db 1 ''Mary Ann'' = Inl MultipleResultsFound"
  by (simp add: find_contact_def find_contact_where_def two_marys_db_def contact_eval
      example_env_def ascii_int_eval)

lemma find_contact_same_condition:
  "find_contact example_env (example_db\<lparr>contacts := [ann, ann\<lparr>id_contact := 9\<rparr>]\<rparr>) 1 ''Ann''
     = Inl MultipleResultsFound"
  by (simp add: find_contact_def find_contact_where_def example_db_def contact_eval
      example_env_def ascii_int_eval)

lemma find_contact_by_id:
  "find_contact example_env example_db 1 '' 2 '' = Inr (Some bob)"
  by (simp add: find_contact_def find_contact_where_def example_db_def contact_eval
      example_env_def ascii_int_eval)

lemma find_contact_by_full_name:
  "find_contact example_env example_db 1 ''Bob Ray'' = Inr (Some bob)"
  by (simp add: find_contact_def find_contact_where_def example_db_def contact_eval
      example_env_def ascii_int_eval)

lemma find_contact_other_owner:
  "find_contact example_env example_db 1 ''3'' = Inr None"
  by (simp add: find_contact_def find_contact_where_def example_db_def contact_eval
      example_env_def ascii_int_eval)

section \<open>Search\<close>












section \<open>Tokens\<close>

lemmas token_eval =
  create_access_token_def create_refresh_token_def create_verification_token_def
  datetime_add_def DATETIME_MIN_def DATETIME_MAX_def minutes_td_def hours_td_def days_td_def
  ACCESS_TOKEN_EXPIRE_MINUTES_def REFRESH_TOKEN_EXPIRE_DAYS_def VERIFICATION_TOKEN_HOUSE_def
  jwt_encode_def time_claim_def timegm_def ALGORITHM_def example_env_def
  decode_access_token_def decode_verification_token_def jwt_decode_def validate_claims_def
  validate_iat_def validate_nbf_def validate_exp_def validate_aud_def validate_sub_def
  validate_jti_def validate_at_hash_def is_str_def dict_get_def isinstance_JWTError_def
  fresh_token_def lapsed_token_def old_token_def root_token_def week_token_def kim_token_def
  null_exp_token_def

lemma first_error_Inr:
  "first_error rs = Inr u \<longleftrightarrow> (\<forall>r \<in> set rs. r = Inr ())"
  by (induction rs rule: first_error.induct) auto


lemma validate_claims_Inr:
  "validate_claims e c n = Inr u \<longleftrightarrow>
     validate_iat e c = Inr () \<and> validate_nbf e c n = Inr () \<and> validate_exp e c n = Inr () \<and>
     validate_aud c = Inr () \<and> validate_sub c = Inr () \<and> validate_jti c = Inr () \<and>
     validate_at_hash c = Inr ()"
  by (auto simp: validate_claims_def first_error_Inr)

lemma jwt_decode_Inr:
  "jwt_decode e now tok key algorithms = Inr p \<longleftrightarrow>
     (\<exists>alg. tok = JWS alg p (hmac e key (alg, p)) \<and> alg \<in> set algorithms \<and>
            validate_claims e p (timegm now) = Inr ())"
  by (cases tok) (auto simp: jwt_decode_def split: sum.splits)

lemma jwt_decode_Inr_ALGORITHM:
  "jwt_decode e now tok key [ALGORITHM] = Inr p \<longleftrightarrow>
     tok = JWS ALGORITHM p (hmac e key (ALGORITHM, p)) \<and>
     validate_claims e p (timegm now) = Inr ()"
  by (auto simp: jwt_decode_Inr)

lemma validate_sub_str:
  "validate_sub c = Inr () \<Longrightarrow> map_of c ''sub'' = Some v \<Longrightarrow> \<exists>x. v = JStr x"
  by (cases v) (auto simp: validate_sub_def is_str_def split: option.splits if_splits)

lemma validate_exp_le:
  "validate_exp e c n = Inr () \<Longrightarrow> map_of c ''exp'' = Some v \<Longrightarrow>
     \<exists>ex. int_claim e v = Inr (Some ex) \<and> n \<le> ex"
  by (auto simp: validate_exp_def split: option.splits sum.splits if_splits)









text \<open>
  The \<open>ValidationError\<close> branch of \<open>decode_access_token\<close> is dead: python-jose has
  refused a subject that is not a string before \<open>TokenData\<close> sees it.
\<close>

lemma dict_get_sub:
  assumes "validate_claims e p n = Inr ()"
  shows "dict_get p ''sub'' = map_of p ''sub''"
proof (cases "map_of p ''sub''")
  case None
  then show ?thesis by (simp add: dict_get_def)
next
  case (Some v)
  from assms have "validate_sub p = Inr ()" by (simp add: validate_claims_Inr)
  from validate_sub_str [OF this Some] obtain x where "v = JStr x" ..
  with Some show ?thesis by (simp add: dict_get_def)
qed

lemma decode_access_token_cases:
  "decode_access_token e now tok =
     (case jwt_decode e now tok (SECRET_KEY e) [ALGORITHM] of
        Inl err \<Rightarrow> if isinstance_JWTError err then Inr None else Inl err
      | Inr payload \<Rightarrow>
          (case map_of payload ''sub'' of
             Some (JStr name) \<Rightarrow> Inr (Some \<lparr>username_td = Some name\<rparr>)
           | _ \<Rightarrow> Inr None))"
proof (cases "jwt_decode e now tok (SECRET_KEY e) [ALGORITHM]")
  case (Inl a)
  then show ?thesis by (simp add: decode_access_token_def)
next
  case (Inr p)
  then have v: "validate_claims e p (timegm now) = Inr ()"
    by (auto simp: jwt_decode_Inr)
  then have "validate_sub p = Inr ()" by (simp add: validate_claims_Inr)
  then have "map_of p ''sub'' = Some v \<Longrightarrow> \<exists>x. v = JStr x" for v
    by (rule validate_sub_str)
  with Inr dict_get_sub [OF v] show ?thesis
    by (auto simp: decode_access_token_def split: option.splits json.splits)
qed

lemma decode_verification_token_cases:
  "decode_verification_token e now tok =
     (case jwt_decode e now tok (SECRET_KEY e) [ALGORITHM] of
        Inl err \<Rightarrow> if isinstance_JWTError err then Inr None else Inl err
      | Inr payload \<Rightarrow> Inr (map_of payload ''sub''))"
proof (cases "jwt_decode e now tok (SECRET_KEY e) [ALGORITHM]")
  case (Inl a)
  then show ?thesis by (simp add: decode_verification_token_def)
next
  case (Inr p)
  then have v: "validate_claims e p (timegm now) = Inr ()"
    by (auto simp: jwt_decode_Inr)
  with Inr dict_get_sub [OF v] show ?thesis
    by (simp add: decode_verification_token_def)
qed



lemma decode_access_token_Some:
  "decode_access_token e now tok = Inr (Some td) \<longleftrightarrow>
     (\<exists>payload name. tok = JWS ALGORITHM payload (hmac e (SECRET_KEY e) (ALGORITHM, payload)) \<and>
        validate_claims e payload (timegm now) = Inr () \<and>
        map_of payload ''sub'' = Some (JStr name) \<and> td = \<lparr>username_td = Some name\<rparr>)"
proof -
  have "decode_access_token e now tok = Inr (Some td) \<longleftrightarrow>
          (\<exists>payload name. jwt_decode e now tok (SECRET_KEY e) [ALGORITHM] = Inr payload \<and>
             map_of payload ''sub'' = Some (JStr name) \<and> td = \<lparr>username_td = Some name\<rparr>)"
    by (cases "jwt_decode e now tok (SECRET_KEY e) [ALGORITHM]")
       (auto simp: decode_access_token_cases split: option.splits json.splits)
  then show ?thesis
    unfolding jwt_decode_Inr_ALGORITHM by blast
qed

lemma decode_verification_token_Some:
  "decode_verification_token e now tok = Inr (Some v) \<longleftrightarrow>
     (\<exists>payload. tok = JWS ALGORITHM payload (hmac e (SECRET_KEY e) (ALGORITHM, payload)) \<and>
        validate_claims e payload (timegm now) = Inr () \<and>
        map_of payload ''sub'' = Some v)"
proof -
  have "decode_verification_token e now tok = Inr (Some v) \<longleftrightarrow>
          (\<exists>payload. jwt_decode e now tok (SECRET_KEY e) [ALGORITHM] = Inr payload \<and>
             map_of payload ''sub'' = Some v)"
    by (cases "jwt_decode e now tok (SECRET_KEY e) [ALGORITHM]")
       (auto simp: decode_verification_token_cases)
  then show ?thesis
    unfolding jwt_decode_Inr_ALGORITHM by blast
qed

lemma decode_verification_token_str:
  "decode_verification_token e now tok = Inr (Some v) \<Longrightarrow> \<exists>email. v = JStr email"
  using validate_sub_str by (auto simp: decode_verification_token_Some validate_claims_Inr)

lemma create_access_token_payload:
  assumes "create_access_token e issued [(''sub'', PStr S)] expires_delta = Inr tok"
  shows "tok = JWS ALGORITHM
           [(''sub'', JStr S), (''exp'', JInt (timegm (issued + access_lifetime expires_delta)))]
           (hmac e (SECRET_KEY e) (ALGORITHM,
              [(''sub'', JStr S), (''exp'', JInt (timegm (issued + access_lifetime expires_delta)))]))"
  using assms
  by (auto simp: create_access_token_def datetime_add_def jwt_encode_def time_claim_def
      access_lifetime_def split: if_splits option.splits)

text \<open>An \<open>expires_delta\<close> of zero is treated as none given: the token lives 30 minutes.\<close>

lemma create_access_token_zero_delta:
  "create_access_token e issued data (Some 0) = create_access_token e issued data None"
  by (simp add: create_access_token_def)

lemma validate_claims_sub_exp:
  "validate_claims e [(''sub'', JStr S), (''exp'', JInt ex)] n =
     (if ex < n then Inl ExpiredSignatureError else Inr ())"
  by (simp add: validate_claims_def validate_iat_def validate_nbf_def validate_exp_def
      validate_aud_def validate_sub_def validate_jti_def validate_at_hash_def is_str_def)

lemma timegm_mono: "a \<le> b \<Longrightarrow> timegm a \<le> timegm b"
  by (simp add: timegm_def zdiv_mono1)



lemma unexpired_payload_valid:
  assumes "now < issued + lifetime"
  shows "validate_claims e [(''sub'', JStr S), (''exp'', JInt (timegm (issued + lifetime)))]
           (timegm now) = Inr ()"
proof -
  have "timegm now \<le> timegm (issued + lifetime)" using assms by (simp add: timegm_mono)
  then show ?thesis by (simp add: validate_claims_sub_exp)
qed

text \<open>
  C3. An access token that \<open>create_access_token\<close> issued for the subject \<open>S\<close>,
  decoded with the same secret at a time before its expiry (the issue time plus its
  lifetime), yields \<open>TokenData\<close> with username \<open>S\<close>.
\<close>

theorem access_token_round_trip:
  assumes "create_access_token e issued [(''sub'', PStr S)] expires_delta = Inr tok"
      and "now < issued + access_lifetime expires_delta"
  shows "decode_access_token e now tok = Inr (Some \<lparr>username_td = Some S\<rparr>)"
  unfolding create_access_token_payload [OF assms(1)] decode_access_token_Some
  using unexpired_payload_valid [OF assms(2)] by simp

lemma issue_fresh_token:
  "create_access_token example_env 1000500000 [(''sub'', PStr ''eve@example.com'')] None
     = Inr fresh_token"
  by (simp add: token_eval)

theorem access_token_round_trip_witness:
  "create_access_token example_env 1000500000 [(''sub'', PStr ''eve@example.com'')] None
     = Inr fresh_token
   \<and> (1060500000 :: int) < 1000500000 + access_lifetime None
   \<and> decode_access_token example_env 1060500000 fresh_token
       = Inr (Some \<lparr>username_td = Some ''eve@example.com''\<rparr>)"
proof -
  have l: "(1060500000 :: int) < 1000500000 + access_lifetime None"
    by (simp add: access_lifetime_def minutes_td_def ACCESS_TOKEN_EXPIRE_MINUTES_def)
  from access_token_round_trip [OF issue_fresh_token l] issue_fresh_token l
  show ?thesis by simp
qed

lemma decode_jwt_error:
  assumes "jwt_decode e now tok (SECRET_KEY e) [ALGORITHM] = Inl err" and "isinstance_JWTError err"
  shows "decode_access_token e now tok = Inr None"
    and "decode_verification_token e now tok = Inr None"
  using assms by (simp_all add: decode_access_token_def decode_verification_token_def)








lemma decode_verification_token_only:
  assumes "decode_verification_token e now tok = Inr (Some v)"
  shows "\<exists>p email. tok = JWS ALGORITHM p (hmac e (SECRET_KEY e) (ALGORITHM, p)) \<and>
           map_of p ''sub'' = Some (JStr email) \<and> v = JStr email \<and>
           (\<forall>v. map_of p ''exp'' = Some v \<longrightarrow>
                (\<exists>t. int_claim e v = Inr (Some t) \<and> timegm now \<le> t))"
proof -
  from assms obtain p where p:
    "tok = JWS ALGORITHM p (hmac e (SECRET_KEY e) (ALGORITHM, p))"
    "validate_claims e p (timegm now) = Inr ()"
    "map_of p ''sub'' = Some v"
    unfolding decode_verification_token_Some by blast
  from decode_verification_token_str [OF assms] obtain email where v: "v = JStr email" ..
  from p(2) have "validate_exp e p (timegm now) = Inr ()"
    by (simp add: validate_claims_Inr)
  then have "\<forall>v. map_of p ''exp'' = Some v \<longrightarrow>
                (\<exists>t. int_claim e v = Inr (Some t) \<and> timegm now \<le> t)"
    using validate_exp_le by blast
  with p v show ?thesis by blast
qed






section \<open>Users, registration and login\<close>

lemma filter_distinct_key:
  "distinct (map f xs) \<Longrightarrow>
   filter (\<lambda>u. f u = k) xs = (case List.find (\<lambda>u. f u = k) xs of None \<Rightarrow> [] | Some u \<Rightarrow> [u])"
proof (induction xs)
  case Nil
  then show ?case by simp
next
  case (Cons a xs)
  show ?case
  proof (cases "f a = k")
    case True
    with Cons.prems have "\<forall>u \<in> set xs. f u \<noteq> k" by (auto simp: image_iff)
    then have "filter (\<lambda>u. f u = k) xs = []" by (simp add: filter_empty_conv)
    with True show ?thesis by simp
  next
    case False
    with Cons show ?thesis by simp
  qed
qed

lemma get_user_by_email_unique:
  assumes "distinct (map email_user (users s))"
  shows "get_user_by_email s (Some (JStr x)) = Inr (List.find (\<lambda>u. email_user u = x) (users s))"
proof -
  have "filter (\<lambda>u. Some (JStr (email_user u)) = Some (JStr x)) (users s)
          = filter (\<lambda>u. email_user u = x) (users s)"
    by simp
  then show ?thesis
    unfolding get_user_by_email_def
    by (simp add: filter_distinct_key [OF assms] split: option.splits)
qed

lemma find_None_email:
  "List.find (\<lambda>u. email_user u = x) us = None \<longleftrightarrow> \<not> (\<exists>u \<in> set us. email_user u = x)"
  by (auto simp: find_None_iff)

lemma find_Some_email:
  assumes "distinct (map email_user us)"
  shows "List.find (\<lambda>u. email_user u = x) us = Some u \<longleftrightarrow> u \<in> set us \<and> email_user u = x"
  using assms
proof (induction us)
  case Nil
  then show ?case by simp
next
  case (Cons a us)
  then show ?case by (auto simp: image_iff)
qed

lemma get_user_by_email_is_active:
  "get_user_by_email (s\<lparr>users := map (\<lambda>u. u\<lparr>is_active := flag u\<rparr>) (users s)\<rparr>) x
     = map_sum id (map_option (\<lambda>u. u\<lparr>is_active := flag u\<rparr>)) (get_user_by_email s x)"
proof -
  have one: "scalar_one_or_none (map g xs) = map_sum id (map_option g) (scalar_one_or_none xs)"
    for g :: "user \<Rightarrow> user" and xs
    by (cases xs rule: scalar_one_or_none.cases) simp_all
  show ?thesis
    by (simp add: get_user_by_email_def filter_map o_def one)
qed

text \<open>Tokens are created whenever the clock leaves room for the lifetime.\<close>

lemma create_tokens_ok:
  assumes "DATETIME_MIN \<le> now" "now + days_td REFRESH_TOKEN_EXPIRE_DAYS \<le> DATETIME_MAX"
  shows "\<exists>a r. create_access_token e now [(''sub'', PStr x)] None = Inr a \<and>
               create_refresh_token e now [(''sub'', PStr x)] None = Inr r \<and>
               create_verification_token e now x \<noteq> Inl OverflowError"
  using assms
  by (simp add: create_access_token_def create_refresh_token_def create_verification_token_def
      datetime_add_def jwt_encode_def time_claim_def
      minutes_td_def days_td_def hours_td_def ACCESS_TOKEN_EXPIRE_MINUTES_def
      REFRESH_TOKEN_EXPIRE_DAYS_def VERIFICATION_TOKEN_HOUSE_def DATETIME_MIN_def DATETIME_MAX_def)

lemma create_access_token_error:
  "create_access_token e now [(''sub'', PStr x)] d = Inl err \<Longrightarrow> err = OverflowError"
  by (auto simp: create_access_token_def datetime_add_def jwt_encode_def time_claim_def
      split: if_splits)

lemma create_refresh_token_error:
  "create_refresh_token e now [(''sub'', PStr x)] d = Inl err \<Longrightarrow> err = OverflowError"
  by (auto simp: create_refresh_token_def datetime_add_def jwt_encode_def time_claim_def
      split: if_splits)

lemma login_for_token_found:
  assumes "get_user_by_email s (Some (JStr form_username)) = Inr (Some usr)"
      and "verify_password e form_password (hashed_password usr)"
  shows "login_for_token e s now form_username form_password \<noteq> Inl (HTTPException n)"
  using assms
  by (auto simp: login_for_token_def split: sum.splits
      dest: create_access_token_error create_refresh_token_error)

lemma login_for_token_401:
  assumes "distinct (map email_user (users s))"
  shows "login_for_token e s now form_username form_password
           = Inl (HTTPException HTTP_401_UNAUTHORIZED) \<longleftrightarrow>
         (\<not> (\<exists>u \<in> set (users s). email_user u = form_username) \<or>
          (\<exists>u \<in> set (users s). email_user u = form_username \<and>
             \<not> verify_password e form_password (hashed_password u)))"
proof (cases "List.find (\<lambda>u. email_user u = form_username) (users s)")
  case None
  then have "\<not> (\<exists>u \<in> set (users s). email_user u = form_username)"
    by (simp add: find_None_email)
  moreover from None have "login_for_token e s now form_username form_password
           = Inl (HTTPException HTTP_401_UNAUTHORIZED)"
    by (simp add: login_for_token_def get_user_by_email_unique [OF assms])
  ultimately show ?thesis by simp
next
  case (Some usr)
  then have usr: "usr \<in> set (users s)" "email_user usr = form_username"
    by (simp_all add: find_Some_email [OF assms])
  have only: "u = usr" if "u \<in> set (users s)" "email_user u = form_username" for u
    using that Some find_Some_email [OF assms, of form_username u] by simp
  have g: "get_user_by_email s (Some (JStr form_username)) = Inr (Some usr)"
    by (simp add: get_user_by_email_unique [OF assms] Some)
  show ?thesis
  proof (cases "verify_password e form_password (hashed_password usr)")
    case True
    then have "login_for_token e s now form_username form_password
           \<noteq> Inl (HTTPException HTTP_401_UNAUTHORIZED)"
      using login_for_token_found [OF g] by blast
    moreover have "\<not> (\<exists>u \<in> set (users s). email_user u = form_username \<and>
             \<not> verify_password e form_password (hashed_password u))"
      using only True by blast
    ultimately show ?thesis using usr by blast
  next
    case False
    then have "login_for_token e s now form_username form_password
           = Inl (HTTPException HTTP_401_UNAUTHORIZED)"
      by (simp add: login_for_token_def g)
    with False usr show ?thesis by blast
  qed
qed

lemma login_for_token_flags:
  "login_for_token e (s\<lparr>users := map (\<lambda>u. u\<lparr>is_active := flag u\<rparr>) (users s)\<rparr>) now
      form_username form_password
   = login_for_token e s now form_username form_password"
proof (cases "get_user_by_email s (Some (JStr form_username))")
  case (Inl err)
  then show ?thesis
    by (simp add: login_for_token_def get_user_by_email_is_active)
next
  case (Inr found)
  then show ?thesis
    by (cases found)
       (simp_all add: login_for_token_def get_user_by_email_is_active cong: sum.case_cong)
qed

lemma login_for_token_tokens:
  assumes "distinct (map email_user (users s))"
      and "u \<in> set (users s)" "email_user u = form_username"
      and "verify_password e form_password (hashed_password u)"
      and "DATETIME_MIN \<le> now" "now + days_td REFRESH_TOKEN_EXPIRE_DAYS \<le> DATETIME_MAX"
  shows "\<exists>pair. login_for_token e s now form_username form_password = Inr pair \<and>
           token_type pair = ''bearer'' \<and>
           decode_access_token e now (access_token pair)
             = Inr (Some \<lparr>username_td = Some (email_user u)\<rparr>)"
proof -
  have g: "get_user_by_email s (Some (JStr form_username)) = Inr (Some u)"
    using assms(2,3) by (simp add: get_user_by_email_unique [OF assms(1)] find_Some_email [OF assms(1)])
  from create_tokens_ok [OF assms(5,6)] obtain a r where t:
    "create_access_token e now [(''sub'', PStr (email_user u))] None = Inr a"
    "create_refresh_token e now [(''sub'', PStr (email_user u))] None = Inr r"
    by blast
  have "now < now + access_lifetime None"
    by (simp add: access_lifetime_def minutes_td_def ACCESS_TOKEN_EXPIRE_MINUTES_def)
  then have "decode_access_token e now a = Inr (Some \<lparr>username_td = Some (email_user u)\<rparr>)"
    unfolding create_access_token_payload [OF t(1)] decode_access_token_Some
    using unexpired_payload_valid by simp
  then show ?thesis
    using g t assms(4) by (simp add: login_for_token_def)
qed

lemma create_verification_token_error:
  "create_verification_token e now x = Inl err \<Longrightarrow> err = OverflowError"
  by (auto simp: create_verification_token_def datetime_add_def jwt_encode_def time_claim_def
      split: if_splits)

lemma create_verification_token_ok:
  assumes "DATETIME_MIN \<le> now" "now + hours_td VERIFICATION_TOKEN_HOUSE \<le> DATETIME_MAX"
  shows "\<exists>tok. create_verification_token e now x = Inr tok"
  using assms
  by (simp add: create_verification_token_def datetime_add_def jwt_encode_def time_claim_def
      hours_td_def VERIFICATION_TOKEN_HOUSE_def DATETIME_MIN_def)

lemma create_user_error:
  "create_user e s salt uc = (Inl err, s') \<Longrightarrow>
     s' = s \<and> err \<in> {MultipleResultsFound, AttributeError, IntegrityError}"
proof -
  assume a: "create_user e s salt uc = (Inl err, s')"
  have m: "scalar_one_or_none xs = Inl x \<Longrightarrow> x = MultipleResultsFound" for xs :: "role list" and x
    by (cases xs rule: scalar_one_or_none.cases) simp_all
  from a show ?thesis
    by (auto simp: create_user_def get_role_by_name_def Let_def
        split: sum.splits option.splits if_splits dest: m)
qed

lemma create_user_ok:
  "create_user e s salt uc = (Inr usr, s') \<Longrightarrow>
     s' = s\<lparr>users := users s @ [usr]\<rparr> \<and> \<not> is_active usr \<and>
     username usr = username_uc uc \<and> email_user usr = email_uc uc \<and>
     email_uc uc \<notin> set (map email_user (users s)) \<and>
     (\<exists>r. get_role_by_name s (role_uc uc) = Inr (Some r) \<and> role_id usr = id_role r)"
  by (auto simp: create_user_def Let_def split: sum.splits option.splits if_splits)

lemma create_user_new:
  assumes "get_role_by_name s (role_uc uc) = Inr (Some r)"
      and "email_uc uc \<notin> set (map email_user (users s))"
  shows "\<exists>usr. create_user e s salt uc = (Inr usr, s\<lparr>users := users s @ [usr]\<rparr>) \<and>
           \<not> is_active usr \<and> username usr = username_uc uc \<and> email_user usr = email_uc uc \<and>
           role_id usr = id_role r"
  using assms by (simp add: create_user_def Let_def)

lemma register_taken:
  assumes "distinct (map email_user (users s))"
      and "\<exists>u \<in> set (users s). email_user u = email_uc uc"
  shows "register e s now salt uc = (Inl (HTTPException HTTP_409_CONFLICT), s)"
proof -
  from assms(2) have "List.find (\<lambda>u. email_user u = email_uc uc) (users s) \<noteq> None"
    by (simp add: find_None_email)
  then obtain u where "List.find (\<lambda>u. email_user u = email_uc uc) (users s) = Some u" by blast
  then show ?thesis
    by (simp add: register_def get_user_by_email_unique [OF assms(1)])
qed

lemma register_free:
  assumes "distinct (map email_user (users s))"
      and "\<not> (\<exists>u \<in> set (users s). email_user u = email_uc uc)"
  shows "register e s now salt uc =
     (case create_user e s salt uc of
        (Inl err, s') \<Rightarrow> (Inl err, s')
      | (Inr usr, s') \<Rightarrow>
          (case create_verification_token e now (email_user usr) of
             Inl err \<Rightarrow> (Inl err, s')
           | Inr verification_token \<Rightarrow> (Inr (usr, email_user usr, verification_token), s')))"
proof -
  from assms(2) have "List.find (\<lambda>u. email_user u = email_uc uc) (users s) = None"
    by (simp add: find_None_email)
  then show ?thesis
    by (simp add: register_def get_user_by_email_unique [OF assms(1)])
qed

lemma register_free_no_conflict:
  assumes "distinct (map email_user (users s))"
      and "\<not> (\<exists>u \<in> set (users s). email_user u = email_uc uc)"
  shows "fst (register e s now salt uc) \<noteq> Inl (HTTPException n)"
proof (cases "create_user e s salt uc")
  case (Pair res s')
  show ?thesis
  proof (cases res)
    case (Inl err)
    with Pair create_user_error [of e s salt uc err s'] show ?thesis
      by (auto simp: register_free [OF assms])
  next
    case (Inr usr)
    with Pair show ?thesis
      by (auto simp: register_free [OF assms] split: sum.splits
          dest: create_verification_token_error)
  qed
qed

lemma register_created:
  assumes "distinct (map email_user (users s))"
      and "\<not> (\<exists>u \<in> set (users s). email_user u = email_uc uc)"
      and "get_role_by_name s (role_uc uc) = Inr (Some r)"
      and "DATETIME_MIN \<le> now" "now + hours_td VERIFICATION_TOKEN_HOUSE \<le> DATETIME_MAX"
  shows "\<exists>usr tok. register e s now salt uc
             = (Inr (usr, email_uc uc, tok), s\<lparr>users := users s @ [usr]\<rparr>) \<and>
           username usr = username_uc uc \<and> email_user usr = email_uc uc \<and>
           \<not> is_active usr \<and> role_id usr = id_role r"
proof -
  from assms(2) have "email_uc uc \<notin> set (map email_user (users s))" by auto
  from create_user_new [OF assms(3) this, of e salt] obtain usr where u:
    "create_user e s salt uc = (Inr usr, s\<lparr>users := users s @ [usr]\<rparr>)"
    "\<not> is_active usr" "username usr = username_uc uc" "email_user usr = email_uc uc"
    "role_id usr = id_role r"
    by blast
  from create_verification_token_ok [OF assms(4,5), of e "email_user usr"] obtain tok where
    "create_verification_token e now (email_user usr) = Inr tok" ..
  with u show ?thesis
    by (simp add: register_free [OF assms(1,2)])
qed

lemma register_users:
  "users (snd (register e s now salt uc)) = users s \<or>
   (\<exists>usr. users (snd (register e s now salt uc)) = users s @ [usr] \<and> \<not> is_active usr \<and>
      email_user usr = email_uc uc \<and> email_uc uc \<notin> set (map email_user (users s)))"
proof (cases "create_user e s salt uc")
  case (Pair res s')
  show ?thesis
  proof (cases res)
    case (Inl err)
    with Pair create_user_error [of e s salt uc err s'] show ?thesis
      by (auto simp: register_def split: sum.splits option.splits)
  next
    case (Inr usr)
    with Pair create_user_ok [of e s salt uc usr s'] show ?thesis
      by (auto simp: register_def split: sum.splits option.splits)
  qed
qed

lemma register_distinct:
  assumes "distinct (map email_user (users s))"
  shows "distinct (map email_user (users (snd (register e s now salt uc))))"
  using register_users [of e s now salt uc] assms by auto


text \<open>
  C10. With emails unique in the users table, \<open>login_for_token\<close> raises 401 if and
  only if no user has the given email or the password does not verify against the
  stored hash; its result is the same whatever the \<open>is_active\<close> flags are; and any
  stored user, active or not, who presents the right password receives a bearer pair
  whose access token decodes to the user's email (the clock leaving room for the
  refresh token's seven days).
\<close>

theorem login_ignores_is_active:
  assumes "distinct (map email_user (users s))"
  shows "(login_for_token e s now form_username form_password
            = Inl (HTTPException HTTP_401_UNAUTHORIZED) \<longleftrightarrow>
          (\<not> (\<exists>u \<in> set (users s). email_user u = form_username) \<or>
           (\<exists>u \<in> set (users s). email_user u = form_username \<and>
              \<not> verify_password e form_password (hashed_password u))))
       \<and> login_for_token e (s\<lparr>users := map (\<lambda>u. u\<lparr>is_active := flag u\<rparr>) (users s)\<rparr>) now
            form_username form_password
          = login_for_token e s now form_username form_password
       \<and> (\<forall>u \<in> set (users s).
            email_user u = form_username \<and>
            verify_password e form_password (hashed_password u) \<and>
            DATETIME_MIN \<le> now \<and> now + days_td REFRESH_TOKEN_EXPIRE_DAYS \<le> DATETIME_MAX \<longrightarrow>
            (\<exists>pair. login_for_token e s now form_username form_password = Inr pair \<and>
               token_type pair = ''bearer'' \<and>
               decode_access_token e now (access_token pair)
                 = Inr (Some \<lparr>username_td = Some (email_user u)\<rparr>)))"
proof (intro conjI ballI impI)
  show "login_for_token e s now form_username form_password
            = Inl (HTTPException HTTP_401_UNAUTHORIZED) \<longleftrightarrow>
          (\<not> (\<exists>u \<in> set (users s). email_user u = form_username) \<or>
           (\<exists>u \<in> set (users s). email_user u = form_username \<and>
              \<not> verify_password e form_password (hashed_password u)))"
    by (rule login_for_token_401 [OF assms])
  show "login_for_token e (s\<lparr>users := map (\<lambda>u. u\<lparr>is_active := flag u\<rparr>) (users s)\<rparr>) now
            form_username form_password
          = login_for_token e s now form_username form_password"
    by (rule login_for_token_flags)
next
  fix u
  assume "u \<in> set (users s)"
    and "email_user u = form_username \<and>
         verify_password e form_password (hashed_password u) \<and>
         DATETIME_MIN \<le> now \<and> now + days_td REFRESH_TOKEN_EXPIRE_DAYS \<le> DATETIME_MAX"
  then show "\<exists>pair. login_for_token e s now form_username form_password = Inr pair \<and>
               token_type pair = ''bearer'' \<and>
               decode_access_token e now (access_token pair)
                 = Inr (Some \<lparr>username_td = Some (email_user u)\<rparr>)"
    using login_for_token_tokens [OF assms, of u form_username e form_password now] by simp
qed

theorem login_ignores_is_active_witness:
  "distinct (map email_user (users example_db))
   \<and> eve \<in> set (users example_db) \<and> \<not> is_active eve
   \<and> email_user eve = ''eve@example.com''
   \<and> verify_password example_env ''pw-eve'' (hashed_password eve)
   \<and> DATETIME_MIN \<le> 1000500000
   \<and> 1000500000 + days_td REFRESH_TOKEN_EXPIRE_DAYS \<le> DATETIME_MAX
   \<and> login_for_token example_env example_db 1000500000 ''eve@example.com'' ''pw-eve''
       = Inr \<lparr>access_token = fresh_token, refresh_token = week_token, token_type = ''bearer''\<rparr>
   \<and> login_for_token example_env example_db 1000500000 ''eve@example.com'' ''guess''
       = Inl (HTTPException HTTP_401_UNAUTHORIZED)
   \<and> login_for_token example_env example_db 1000500000 ''nobody@example.com'' ''pw-eve''
       = Inl (HTTPException HTTP_401_UNAUTHORIZED)"
proof -
  have d: "distinct (map email_user (users example_db))"
    by (simp add: user_eval)
  have facts: "eve \<in> set (users example_db)" "\<not> is_active eve"
      "email_user eve = ''eve@example.com''"
      "verify_password example_env ''pw-eve'' (hashed_password eve)"
      "DATETIME_MIN \<le> 1000500000"
      "1000500000 + days_td REFRESH_TOKEN_EXPIRE_DAYS \<le> DATETIME_MAX"
    by (simp_all add: user_eval verify_password_def example_env_def DATETIME_MIN_def
        DATETIME_MAX_def days_td_def REFRESH_TOKEN_EXPIRE_DAYS_def)
  have ok: "login_for_token example_env example_db 1000500000 ''eve@example.com'' ''pw-eve''
       = Inr \<lparr>access_token = fresh_token, refresh_token = week_token, token_type = ''bearer''\<rparr>"
    by (simp add: login_for_token_def get_user_by_email_def verify_password_def user_eval
        token_eval)
  have no: "login_for_token example_env example_db 1000500000 ''eve@example.com'' ''guess''
       = Inl (HTTPException HTTP_401_UNAUTHORIZED)"
      "login_for_token example_env example_db 1000500000 ''nobody@example.com'' ''pw-eve''
       = Inl (HTTPException HTTP_401_UNAUTHORIZED)"
    by (simp_all add: login_for_token_def get_user_by_email_def verify_password_def user_eval
        token_eval)
  from login_ignores_is_active [OF d, of example_env 1000500000 "''eve@example.com''" "''pw-eve''"]
    d facts ok no
  show ?thesis by simp
qed


text \<open>
  C5. With emails unique in the users table, \<open>register\<close> raises the 409 conflict if
  and only if a user with the requested email is stored, and then leaves the store as
  it is. When none is stored (the requested role being in the roles table and the
  clock leaving room for the verification token's 24 hours) it appends one user with
  the requested email and answers with it under status 201; registering the same email
  again then raises 409 and adds no second user.
\<close>

theorem register_conflict_iff:
  assumes "distinct (map email_user (users s))"
  shows "(fst (register e s now salt uc) = Inl (HTTPException HTTP_409_CONFLICT) \<longleftrightarrow>
            (\<exists>u \<in> set (users s). email_user u = email_uc uc))
       \<and> ((\<exists>u \<in> set (users s). email_user u = email_uc uc) \<longrightarrow>
            register e s now salt uc = (Inl (HTTPException HTTP_409_CONFLICT), s))
       \<and> (\<not> (\<exists>u \<in> set (users s). email_user u = email_uc uc) \<and>
            get_role_by_name s (role_uc uc) = Inr (Some r) \<and>
            DATETIME_MIN \<le> now \<and> now + hours_td VERIFICATION_TOKEN_HOUSE \<le> DATETIME_MAX \<longrightarrow>
            (\<exists>usr tok.
               register e s now salt uc
                 = (Inr (usr, email_uc uc, tok), s\<lparr>users := users s @ [usr]\<rparr>) \<and>
               email_user usr = email_uc uc \<and>
               response_status HTTP_201_CREATED (fst (register e s now salt uc)) = 201 \<and>
               register e (snd (register e s now salt uc)) later salt2 uc
                 = (Inl (HTTPException HTTP_409_CONFLICT), snd (register e s now salt uc))))"
proof (intro conjI impI)
  show "fst (register e s now salt uc) = Inl (HTTPException HTTP_409_CONFLICT) \<longleftrightarrow>
            (\<exists>u \<in> set (users s). email_user u = email_uc uc)"
  proof (cases "\<exists>u \<in> set (users s). email_user u = email_uc uc")
    case True
    with register_taken [OF assms True, of e now salt] show ?thesis by simp
  next
    case False
    with register_free_no_conflict [OF assms False, of e now salt HTTP_409_CONFLICT]
    show ?thesis by simp
  qed
next
  assume "\<exists>u \<in> set (users s). email_user u = email_uc uc"
  then show "register e s now salt uc = (Inl (HTTPException HTTP_409_CONFLICT), s)"
    by (rule register_taken [OF assms])
next
  assume a: "\<not> (\<exists>u \<in> set (users s). email_user u = email_uc uc) \<and>
            get_role_by_name s (role_uc uc) = Inr (Some r) \<and>
            DATETIME_MIN \<le> now \<and> now + hours_td VERIFICATION_TOKEN_HOUSE \<le> DATETIME_MAX"
  then obtain usr tok where u:
    "register e s now salt uc = (Inr (usr, email_uc uc, tok), s\<lparr>users := users s @ [usr]\<rparr>)"
    "email_user usr = email_uc uc"
    using register_created [OF assms, of uc r now e salt] by blast
  let ?s' = "snd (register e s now salt uc)"
  have d: "distinct (map email_user (users ?s'))"
    by (rule register_distinct [OF assms])
  have "\<exists>v \<in> set (users ?s'). email_user v = email_uc uc"
    using u by simp
  then have again: "register e ?s' later salt2 uc = (Inl (HTTPException HTTP_409_CONFLICT), ?s')"
    by (rule register_taken [OF d])
  have "response_status HTTP_201_CREATED (fst (register e s now salt uc)) = 201"
    using u(1) by (simp add: response_status_def HTTP_201_CREATED_def)
  with u again
  show "\<exists>usr tok.
               register e s now salt uc
                 = (Inr (usr, email_uc uc, tok), s\<lparr>users := users s @ [usr]\<rparr>) \<and>
               email_user usr = email_uc uc \<and>
               response_status HTTP_201_CREATED (fst (register e s now salt uc)) = 201 \<and>
               register e (snd (register e s now salt uc)) later salt2 uc
                 = (Inl (HTTPException HTTP_409_CONFLICT), snd (register e s now salt uc))"
    by blast
qed

lemma register_kim:
  "register example_env example_db 1000500000 ''s3'' kim_create
     = (Inr (kim, ''kim@example.com'', kim_token), example_db\<lparr>users := users example_db @ [kim]\<rparr>)"
  by (simp add: register_def get_user_by_email_def create_user_def get_role_by_name_def
      get_password_hash_def next_id_def user_eval token_eval Let_def)

theorem register_conflict_iff_witness:
  "distinct (map email_user (users example_db))
   \<and> \<not> (\<exists>u \<in> set (users example_db). email_user u = email_uc kim_create)
   \<and> get_role_by_name example_db (role_uc kim_create) = Inr (Some role_user)
   \<and> DATETIME_MIN \<le> 1000500000
   \<and> 1000500000 + hours_td VERIFICATION_TOKEN_HOUSE \<le> DATETIME_MAX
   \<and> register example_env example_db 1000500000 ''s3'' kim_create
       = (Inr (kim, ''kim@example.com'', kim_token), example_db\<lparr>users := users example_db @ [kim]\<rparr>)
   \<and> (\<exists>u \<in> set (users (example_db\<lparr>users := users example_db @ [kim]\<rparr>)).
         email_user u = email_uc kim_create)
   \<and> register example_env (example_db\<lparr>users := users example_db @ [kim]\<rparr>) 1000600000 ''s4'' kim_create
       = (Inl (HTTPException HTTP_409_CONFLICT), example_db\<lparr>users := users example_db @ [kim]\<rparr>)"
proof -
  have d: "distinct (map email_user (users example_db))"
    by (simp add: user_eval)
  have facts: "\<not> (\<exists>u \<in> set (users example_db). email_user u = email_uc kim_create)"
      "get_role_by_name example_db (role_uc kim_create) = Inr (Some role_user)"
      "DATETIME_MIN \<le> 1000500000"
      "1000500000 + hours_td VERIFICATION_TOKEN_HOUSE \<le> DATETIME_MAX"
      "\<exists>u \<in> set (users (example_db\<lparr>users := users example_db @ [kim]\<rparr>)).
         email_user u = email_uc kim_create"
    by (simp_all add: user_eval get_role_by_name_def DATETIME_MIN_def DATETIME_MAX_def
        hours_td_def VERIFICATION_TOKEN_HOUSE_def)
  from register_conflict_iff [OF d, of example_env 1000500000 "''s3''" kim_create role_user
      1000600000 "''s4''"] d facts register_kim
  show ?thesis by simp
qed


section \<open>Role checks\<close>

text \<open>
  C7. For a token that authenticates a user whose role is in the roles table,
  \<open>RoleChecker\<close> returns the user when the role's name is among the values of the
  allowed roles and raises 403 exactly when it is not. A user whose role is not admin
  receives 403 from the all-contacts route and from the delete route, which then
  deletes nothing.
\<close>

theorem RoleChecker_allow_list:
  assumes "get_current_user e s now tok = Inr usr" and "role_of s usr = Some r"
  shows "RoleChecker allowed_roles e s now tok =
           (if name_role r \<in> set (map role_value allowed_roles) then Inr usr
            else Inl (HTTPException HTTP_403_FORBIDDEN))
       \<and> (RoleChecker allowed_roles e s now tok = Inl (HTTPException HTTP_403_FORBIDDEN) \<longleftrightarrow>
            name_role r \<notin> set (map role_value allowed_roles))
       \<and> (name_role r \<noteq> ''admin'' \<longrightarrow>
            get_contacts_all_route e s now tok over_limit limit offset
              = Inl (HTTPException HTTP_403_FORBIDDEN) \<and>
            response_status HTTP_200_OK
              (get_contacts_all_route e s now tok over_limit limit offset) = 403 \<and>
            delete_contact_route e s now tok contact_id
              = (Inl (HTTPException HTTP_403_FORBIDDEN), s) \<and>
            response_status HTTP_200_OK (fst (delete_contact_route e s now tok contact_id)) = 403)"
proof -
  have checker: "RoleChecker roles_allowed e s now tok =
           (if name_role r \<in> set (map role_value roles_allowed) then Inr usr
            else Inl (HTTPException HTTP_403_FORBIDDEN))" for roles_allowed
    using assms by (simp add: RoleChecker_def)
  have admin: "RoleChecker [ADMIN] e s now tok = Inl (HTTPException HTTP_403_FORBIDDEN)"
    if "name_role r \<noteq> ''admin''"
    using that by (simp add: checker)
  have routes: "get_contacts_all_route e s now tok over_limit limit offset
              = Inl (HTTPException HTTP_403_FORBIDDEN) \<and>
            response_status HTTP_200_OK
              (get_contacts_all_route e s now tok over_limit limit offset) = 403 \<and>
            delete_contact_route e s now tok contact_id
              = (Inl (HTTPException HTTP_403_FORBIDDEN), s) \<and>
            response_status HTTP_200_OK (fst (delete_contact_route e s now tok contact_id)) = 403"
    if "name_role r \<noteq> ''admin''"
    using admin [OF that]
    by (simp add: get_contacts_all_route_def delete_contact_route_def response_status_def
        HTTP_403_FORBIDDEN_def)
  have iff: "RoleChecker allowed_roles e s now tok = Inl (HTTPException HTTP_403_FORBIDDEN) \<longleftrightarrow>
            name_role r \<notin> set (map role_value allowed_roles)"
    by (simp add: checker)
  from routes have routes_imp: "name_role r \<noteq> ''admin'' \<longrightarrow>
            get_contacts_all_route e s now tok over_limit limit offset
              = Inl (HTTPException HTTP_403_FORBIDDEN) \<and>
            response_status HTTP_200_OK
              (get_contacts_all_route e s now tok over_limit limit offset) = 403 \<and>
            delete_contact_route e s now tok contact_id
              = (Inl (HTTPException HTTP_403_FORBIDDEN), s) \<and>
            response_status HTTP_200_OK (fst (delete_contact_route e s now tok contact_id)) = 403"
    by (rule impI)
  show ?thesis
    by (intro conjI) (rule checker iff routes_imp)+
qed

lemma eve_current_user:
  "get_current_user example_env example_db 1000500000 fresh_token = Inr eve"
  by (simp add: get_current_user_def get_user_by_email_def user_eval token_eval)

lemma root_current_user:
  "get_current_user example_env example_db 1000500000 root_token = Inr root"
  by (simp add: get_current_user_def get_user_by_email_def user_eval token_eval)

theorem RoleChecker_allow_list_witness:
  "get_current_user example_env example_db 1000500000 fresh_token = Inr eve
   \<and> role_of example_db eve = Some role_user
   \<and> name_role role_user \<noteq> ''admin''
   \<and> RoleChecker [USER, ADMIN] example_env example_db 1000500000 fresh_token = Inr eve
   \<and> RoleChecker [ADMIN] example_env example_db 1000500000 fresh_token
       = Inl (HTTPException HTTP_403_FORBIDDEN)
   \<and> get_contacts_all_route example_env example_db 1000500000 fresh_token False 10 0
       = Inl (HTTPException HTTP_403_FORBIDDEN)
   \<and> delete_contact_route example_env example_db 1000500000 fresh_token 1
       = (Inl (HTTPException HTTP_403_FORBIDDEN), example_db)"
proof -
  have r: "role_of example_db eve = Some role_user" "name_role role_user \<noteq> ''admin''"
    by (simp_all add: role_of_def user_eval)
  from RoleChecker_allow_list [OF eve_current_user r(1), of "[USER, ADMIN]" False 10 0 1]
    RoleChecker_allow_list [OF eve_current_user r(1), of "[ADMIN]" False 10 0 1]
    eve_current_user r
  show ?thesis by (simp add: role_user_def)
qed

lemma root_is_admin:
  "RoleChecker [ADMIN] example_env example_db 1000500000 root_token = Inr root"
  unfolding RoleChecker_def root_current_user by (simp add: role_of_def user_eval)

lemma admin_reads_all_contacts:
  "get_contacts_all_route example_env example_db 1000500000 root_token False 10 0
     = Inr [ann, bob, cid]"
  unfolding get_contacts_all_route_def root_is_admin
  by (simp add: RateLimiter_def get_contacts_all_def example_db_def)

lemma admin_deletes_contact:
  "delete_contact_route example_env example_db 1000500000 root_token 3
     = (Inr 3, example_db\<lparr>contacts := [ann, bob]\<rparr>)"
  unfolding delete_contact_route_def root_is_admin
  by (simp add: get_contact_by_id_def delete_contact_def example_db_def contact_eval)


section \<open>Updating a contact\<close>

lemma update_contact_duplicate_email:
  assumes "find_contact e s owner identifier = Inr (Some c)"
      and "email_cc contact_update \<noteq> []"
      and "distinct (map email_contact (contacts s))"
      and "other \<in> set (contacts s)" "email_contact other = email_cc contact_update"
      and "id_contact other \<noteq> id_contact c"
  shows "update_contact e s identifier owner contact_update
           = (Inl (ValueError ''Email already in use''), s)"
proof -
  have "filter (\<lambda>x. email_contact x = email_cc contact_update) (contacts s) = [other]"
  proof -
    from assms(4,5) have "List.find (\<lambda>x. email_contact x = email_cc contact_update) (contacts s)
        \<noteq> None"
      by (auto simp: find_None_iff)
    then obtain y where y: "List.find (\<lambda>x. email_contact x = email_cc contact_update) (contacts s)
        = Some y" by blast
    then have f: "filter (\<lambda>x. email_contact x = email_cc contact_update) (contacts s) = [y]"
      by (simp add: filter_distinct_key [OF assms(3)])
    from assms(4,5) have "other \<in> set (filter (\<lambda>x. email_contact x = email_cc contact_update)
        (contacts s))" by simp
    with f show ?thesis by simp
  qed
  then have "email_check s c contact_update = Inl (ValueError ''Email already in use'')"
    using assms(2,6) by (simp add: email_check_def)
  then show ?thesis
    using assms(1) by (simp add: update_contact_def)
qed

text \<open>
  The route has no handler for the \<open>ValueError\<close>: it leaves the handler and the
  response is a 500.
\<close>

lemma update_contact_route_duplicate_email:
  assumes "get_current_user e s now tok = Inr usr"
      and "update_contact e s identifier (id_user usr) contact_update
             = (Inl (ValueError ''Email already in use''), s)"
  shows "update_contact_route e s now tok identifier contact_update
           = (Inl (ValueError ''Email already in use''), s)
         \<and> response_status HTTP_200_OK
              (fst (update_contact_route e s now tok identifier contact_update)) = 500"
  using assms by (simp add: update_contact_route_def response_status_def)

text \<open>
  C9 (the code at the failing input). Eve owns the contacts Ann (id 1) and Bob; her
  \<open>PUT /contacts/1\<close> with Bob's email leaves the store unchanged, and the response
  is the unhandled \<open>ValueError\<close>, a 500 and not a 409.
\<close>

theorem update_contact_duplicate_email_is_500:
  "update_contact_route example_env example_db 1000500000 fresh_token ''1'' ann_takes_bobs_email
     = (Inl (ValueError ''Email already in use''), example_db)
   \<and> response_status HTTP_200_OK
        (fst (update_contact_route example_env example_db 1000500000 fresh_token ''1''
                ann_takes_bobs_email)) = 500
   \<and> response_status HTTP_200_OK
        (fst (update_contact_route example_env example_db 1000500000 fresh_token ''1''
                ann_takes_bobs_email)) \<noteq> HTTP_409_CONFLICT"
proof -
  have f: "find_contact example_env example_db (id_user eve) ''1'' = Inr (Some ann)"
    by (simp add: find_contact_def find_contact_where_def example_db_def eve_def contact_eval
        example_env_def ascii_int_eval)
  have u: "update_contact example_env example_db ''1'' (id_user eve) ann_takes_bobs_email
             = (Inl (ValueError ''Email already in use''), example_db)"
    by (rule update_contact_duplicate_email [OF f, where other = bob])
       (simp_all add: example_db_def contact_eval ann_takes_bobs_email_def)
  from update_contact_route_duplicate_email [OF eve_current_user u]
  show ?thesis by (simp add: HTTP_409_CONFLICT_def response_status_def)
qed

lemma update_contact_free_email:
  "update_contact_route example_env example_db 1000500000 fresh_token ''1'' ann_new_email
     = (Inr (ann\<lparr>email_contact := ''lee@example.com''\<rparr>),
        example_db\<lparr>contacts := [ann\<lparr>email_contact := ''lee@example.com''\<rparr>, bob, cid]\<rparr>)"
proof -
  have f: "find_contact example_env example_db (id_user eve) ''1'' = Inr (Some ann)"
    by (simp add: find_contact_def find_contact_where_def example_db_def eve_def contact_eval
        example_env_def ascii_int_eval)
  have u: "update_contact example_env example_db ''1'' (id_user eve) ann_new_email
     = (Inr (Some (ann\<lparr>email_contact := ''lee@example.com''\<rparr>)),
        example_db\<lparr>contacts := [ann\<lparr>email_contact := ''lee@example.com''\<rparr>, bob, cid]\<rparr>)"
    unfolding update_contact_def f
    by (simp add: email_check_def apply_update_def example_db_def contact_eval
        ann_new_email_def)
  show ?thesis
    using eve_current_user u by (simp add: update_contact_route_def)
qed


section \<open>Activation\<close>

lemma scalar_one_or_none_Some:
  "scalar_one_or_none (filter P xs) = Inr (Some x) \<Longrightarrow> x \<in> set xs \<and> P x"
proof -
  assume a: "scalar_one_or_none (filter P xs) = Inr (Some x)"
  then have "filter P xs = [x]"
    by (cases "filter P xs" rule: scalar_one_or_none.cases) simp_all
  then have "x \<in> set (filter P xs)" by simp
  then show ?thesis by simp
qed

lemma get_user_by_email_Some:
  "get_user_by_email s email = Inr (Some usr) \<Longrightarrow>
     usr \<in> set (users s) \<and> email = Some (JStr (email_user usr))"
  unfolding get_user_by_email_def by (drule scalar_one_or_none_Some) simp

lemma activate_user_active:
  assumes "u' \<in> set (users (activate_user s usr))" and "is_active u'"
  shows "(\<exists>u \<in> set (users s). id_user u = id_user u' \<and> is_active u) \<or> id_user u' = id_user usr"
  using assms by (auto simp: activate_user_def split: if_splits)

lemma verify_email_users:
  "snd (verify_email e s now tok) = s \<or>
   (\<exists>email usr. decode_verification_token e now tok = Inr email \<and>
      get_user_by_email s email = Inr (Some usr) \<and>
      snd (verify_email e s now tok) = activate_user s usr)"
  by (auto simp: verify_email_def split: sum.splits option.splits)

lemma update_avatar_users:
  "u' \<in> set (users (snd (update_avatar s email url))) \<Longrightarrow>
     \<exists>u \<in> set (users s). id_user u = id_user u' \<and> is_active u = is_active u'"
  by (auto simp: update_avatar_def split: sum.splits option.splits if_splits)

lemma update_avatar_user_users:
  "u' \<in> set (users (snd (update_avatar_user e s now tok upload))) \<Longrightarrow>
     \<exists>u \<in> set (users s). id_user u = id_user u' \<and> is_active u = is_active u'"
proof -
  assume a: "u' \<in> set (users (snd (update_avatar_user e s now tok upload)))"
  have "snd (update_avatar_user e s now tok upload) = s \<or>
        (\<exists>email url. snd (update_avatar_user e s now tok upload) = snd (update_avatar s email url))"
  proof (cases "get_current_user e s now tok")
    case (Inl err)
    then show ?thesis by (simp add: update_avatar_user_def)
  next
    case (Inr current_user)
    show ?thesis
    proof (cases "\<exists>url. upload = Inr (Some url) \<and> url \<noteq> []")
      case True
      then obtain url where url: "upload = Inr (Some url)" "url \<noteq> []" by blast
      obtain res s' where r: "update_avatar s (email_user current_user) url = (res, s')"
        by (cases "update_avatar s (email_user current_user) url")
      then have "snd (update_avatar_user e s now tok upload)
                   = snd (update_avatar s (email_user current_user) url)"
        using Inr url by (simp add: update_avatar_user_def split: sum.splits)
      then show ?thesis by blast
    next
      case False
      with Inr show ?thesis
        by (auto simp: update_avatar_user_def split: sum.splits option.splits)
    qed
  qed
  with a update_avatar_users show ?thesis by auto
qed

lemma create_contacts_users: "users (snd (create_contacts s contact owner)) = users s"
  by (simp add: create_contacts_def Let_def)

lemma create_contacts_route_users:
  "users (snd (create_contacts_route e s now tok over_limit contact)) = users s"
  by (simp add: create_contacts_route_def create_contacts_users split: sum.splits)

lemma update_contact_users:
  "users (snd (update_contact e s identifier owner contact_update)) = users s"
  by (simp add: update_contact_def Let_def split: sum.splits option.splits)

lemma update_contact_route_users:
  "users (snd (update_contact_route e s now tok identifier contact_update)) = users s"
proof (cases "get_current_user e s now tok")
  case (Inl err)
  then show ?thesis by (simp add: update_contact_route_def)
next
  case (Inr usr)
  obtain res s' where r: "update_contact e s identifier (id_user usr) contact_update = (res, s')"
    by (cases "update_contact e s identifier (id_user usr) contact_update")
  then have "users s' = users s"
    using update_contact_users by (metis snd_conv)
  with Inr r show ?thesis
    by (simp add: update_contact_route_def split: sum.splits option.splits)
qed

lemma delete_contact_route_users:
  "users (snd (delete_contact_route e s now tok contact_id)) = users s"
  by (simp add: delete_contact_route_def delete_contact_def split: sum.splits option.splits)

lemma register_inactive:
  assumes "fst (register e s now salt uc) = Inr (usr, mail)"
  shows "\<not> is_active usr \<and> users (snd (register e s now salt uc)) = users s @ [usr]"
proof -
  obtain res s' where c: "create_user e s salt uc = (res, s')"
    by (cases "create_user e s salt uc")
  with assms obtain created where res: "res = Inr created"
    by (cases res) (auto simp: register_def split: sum.splits option.splits)
  with c create_user_ok [of e s salt uc created s']
  have k: "s' = s\<lparr>users := users s @ [created]\<rparr>" "\<not> is_active created" by simp_all
  from assms c res have "usr = created \<and> snd (register e s now salt uc) = s'"
    by (auto simp: register_def split: sum.splits option.splits)
  with k show ?thesis by simp
qed

lemma step_active:
  assumes "u' \<in> set (users (step e now req s))" and "is_active u'"
  shows "(\<exists>u \<in> set (users s). id_user u = id_user u' \<and> is_active u) \<or>
         (\<exists>tok target. req = VerifyEmail tok \<and>
            decode_verification_token e now tok = Inr (Some (JStr (email_user target))) \<and>
            target \<in> set (users s) \<and> id_user u' = id_user target)"
proof (cases req)
  case (Register salt uc)
  with assms register_users [of e s now salt uc] show ?thesis by auto
next
  case (VerifyEmail tok)
  from verify_email_users [of e s now tok] show ?thesis
  proof
    assume "snd (verify_email e s now tok) = s"
    with assms VerifyEmail show ?thesis by auto
  next
    assume "\<exists>email usr. decode_verification_token e now tok = Inr email \<and>
      get_user_by_email s email = Inr (Some usr) \<and>
      snd (verify_email e s now tok) = activate_user s usr"
    then obtain email usr where usr:
      "decode_verification_token e now tok = Inr email"
      "get_user_by_email s email = Inr (Some usr)"
      "snd (verify_email e s now tok) = activate_user s usr" by blast
    from get_user_by_email_Some [OF usr(2)] usr(1) have t: "usr \<in> set (users s)"
      "decode_verification_token e now tok = Inr (Some (JStr (email_user usr)))" by simp_all
    from assms VerifyEmail usr(3) have "u' \<in> set (users (activate_user s usr))" by simp
    from activate_user_active [OF this assms(2)] t VerifyEmail show ?thesis by blast
  qed
next
  case (Login form_username form_password)
  with assms show ?thesis by auto
next
  case (UpdateAvatar tok upload)
  with assms update_avatar_user_users [of u' e s now tok upload] show ?thesis by auto
next
  case (CreateContact tok over_limit contact)
  with assms show ?thesis by (auto simp: create_contacts_route_users)
next
  case (UpdateContact tok ident contact_update)
  with assms show ?thesis by (auto simp: update_contact_route_users)
next
  case (DeleteContact tok contact_id)
  with assms show ?thesis by (auto simp: delete_contact_route_users)
qed

text \<open>
  What the step tells of the token: it is signed under the secret with HS256, its
  subject is the email of a stored user, and its \<open>exp\<close>, if any, is not earlier
  than the second of the clock.
\<close>

lemma step_active_token:
  assumes "u' \<in> set (users (step e now req s))" and "is_active u'"
      and "\<not> (\<exists>u \<in> set (users s). id_user u = id_user u' \<and> is_active u)"
  shows "\<exists>tok p target. req = VerifyEmail tok \<and>
            tok = JWS ALGORITHM p (hmac e (SECRET_KEY e) (ALGORITHM, p)) \<and>
            map_of p ''sub'' = Some (JStr (email_user target)) \<and>
            (\<forall>v. map_of p ''exp'' = Some v \<longrightarrow>
                 (\<exists>x. int_claim e v = Inr (Some x) \<and> timegm now \<le> x)) \<and>
            target \<in> set (users s) \<and> id_user u' = id_user target"
proof -
  from step_active [OF assms(1,2)] assms(3) obtain tok target where t:
    "req = VerifyEmail tok"
    "decode_verification_token e now tok = Inr (Some (JStr (email_user target)))"
    "target \<in> set (users s)" "id_user u' = id_user target"
    by blast
  from decode_verification_token_only [OF t(2)] obtain p email where p:
    "tok = JWS ALGORITHM p (hmac e (SECRET_KEY e) (ALGORITHM, p))"
    "map_of p ''sub'' = Some (JStr email)" "JStr (email_user target) = JStr email"
    "\<forall>v. map_of p ''exp'' = Some v \<longrightarrow> (\<exists>x. int_claim e v = Inr (Some x) \<and> timegm now \<le> x)"
    by blast
  from p(2,3) have "map_of p ''sub'' = Some (JStr (email_user target))" by simp
  with t p(1,4) show ?thesis by blast
qed

text \<open>
  \<open>decode_verification_token\<close> does not tell the kinds of token apart: an access
  token for the same email, still within its lifetime, passes as a verification token.
\<close>

lemma access_token_passes_as_verification_token:
  assumes "create_access_token e issued [(''sub'', PStr x)] expires_delta = Inr tok"
      and "now < issued + access_lifetime expires_delta"
  shows "decode_verification_token e now tok = Inr (Some (JStr x))"
  unfolding create_access_token_payload [OF assms(1)] decode_verification_token_Some
  using unexpired_payload_valid [OF assms(2)] by simp

lemma verify_email_activates:
  assumes "decode_verification_token e now tok = Inr (Some (JStr (email_user target)))"
      and "get_user_by_email s (Some (JStr (email_user target))) = Inr (Some target)"
  shows "\<exists>u' \<in> set (users (step e now (VerifyEmail tok) s)).
           id_user u' = id_user target \<and> is_active u'"
proof -
  from get_user_by_email_Some [OF assms(2)] have m: "target \<in> set (users s)" by simp
  from assms have "step e now (VerifyEmail tok) s = activate_user s target"
    by (simp add: verify_email_def)
  moreover from m have "target\<lparr>is_active := True\<rparr> \<in> set (users (activate_user s target))"
    by (auto simp: activate_user_def)
  ultimately have "target\<lparr>is_active := True\<rparr> \<in> set (users (step e now (VerifyEmail tok) s))"
    by simp
  then show ?thesis
    by (rule bexI [rotated]) simp
qed

lemma access_token_activates:
  assumes "create_access_token e issued [(''sub'', PStr (email_user target))] expires_delta
             = Inr tok"
      and "now < issued + access_lifetime expires_delta"
      and "get_user_by_email s (Some (JStr (email_user target))) = Inr (Some target)"
  shows "\<exists>u' \<in> set (users (step e now (VerifyEmail tok) s)).
           id_user u' = id_user target \<and> is_active u'"
  using verify_email_activates [OF access_token_passes_as_verification_token [OF assms(1,2)]
      assms(3)] .

text \<open>
  C6 (amended). A user that \<open>register\<close> creates is inactive. Whatever the request,
  a user who is active after it either was active before it, or the request was
  \<open>verify_email\<close> with a token that is signed under the secret with HS256, whose
  subject is the email of that stored user and whose \<open>exp\<close>, if any, is not earlier
  than the clock in whole seconds; no other request sets the flag. The token need not
  be a verification token: \<open>verify_email\<close> with an access token that
  \<open>create_access_token\<close> issued for the email of a stored user, within its lifetime,
  activates that user.
\<close>

theorem is_active_only_by_verify_email:
  "(fst (register e s now salt uc) = Inr (usr, mail) \<longrightarrow>
      \<not> is_active usr \<and> users (snd (register e s now salt uc)) = users s @ [usr])
   \<and> (\<forall>u' \<in> set (users (step e t req st)). is_active u' \<longrightarrow>
        (\<exists>u \<in> set (users st). id_user u = id_user u' \<and> is_active u) \<or>
        (\<exists>tok p target. req = VerifyEmail tok \<and>
           tok = JWS ALGORITHM p (hmac e (SECRET_KEY e) (ALGORITHM, p)) \<and>
           map_of p ''sub'' = Some (JStr (email_user target)) \<and>
           (\<forall>v. map_of p ''exp'' = Some v \<longrightarrow>
                (\<exists>x. int_claim e v = Inr (Some x) \<and> timegm t \<le> x)) \<and>
           target \<in> set (users st) \<and> id_user u' = id_user target))
   \<and> (create_access_token e issued [(''sub'', PStr (email_user holder))] expires_delta
         = Inr access \<and>
       clock < issued + access_lifetime expires_delta \<and>
       get_user_by_email db0 (Some (JStr (email_user holder))) = Inr (Some holder) \<longrightarrow>
        (\<exists>u' \<in> set (users (step e clock (VerifyEmail access) db0)).
           id_user u' = id_user holder \<and> is_active u'))"
proof -
  have created: "fst (register e s now salt uc) = Inr (usr, mail) \<longrightarrow>
      \<not> is_active usr \<and> users (snd (register e s now salt uc)) = users s @ [usr]"
    using register_inactive by blast
  have only: "\<forall>u' \<in> set (users (step e t req st)). is_active u' \<longrightarrow>
        (\<exists>u \<in> set (users st). id_user u = id_user u' \<and> is_active u) \<or>
        (\<exists>tok p target. req = VerifyEmail tok \<and>
           tok = JWS ALGORITHM p (hmac e (SECRET_KEY e) (ALGORITHM, p)) \<and>
           map_of p ''sub'' = Some (JStr (email_user target)) \<and>
           (\<forall>v. map_of p ''exp'' = Some v \<longrightarrow>
                (\<exists>x. int_claim e v = Inr (Some x) \<and> timegm t \<le> x)) \<and>
           target \<in> set (users st) \<and> id_user u' = id_user target)"
    using step_active_token by blast
  have any: "create_access_token e issued [(''sub'', PStr (email_user holder))] expires_delta
         = Inr access \<and>
       clock < issued + access_lifetime expires_delta \<and>
       get_user_by_email db0 (Some (JStr (email_user holder))) = Inr (Some holder) \<longrightarrow>
        (\<exists>u' \<in> set (users (step e clock (VerifyEmail access) db0)).
           id_user u' = id_user holder \<and> is_active u')"
    using access_token_activates by blast
  show ?thesis
    by (intro conjI) (rule created only any)+
qed

lemma verify_kim:
  "step example_env 1000600000 (VerifyEmail kim_token)
     (example_db\<lparr>users := users example_db @ [kim]\<rparr>)
   = example_db\<lparr>users := users example_db @ [kim\<lparr>is_active := True\<rparr>]\<rparr>"
  by (simp add: verify_email_def get_user_by_email_def activate_user_def user_eval token_eval)

lemma verify_eve_with_access_token:
  "step example_env 1000600000 (VerifyEmail fresh_token) example_db
     = example_db\<lparr>users := [eve\<lparr>is_active := True\<rparr>, root]\<rparr>"
  by (simp add: verify_email_def get_user_by_email_def activate_user_def user_eval token_eval)

theorem is_active_only_by_verify_email_witness:
  "fst (register example_env example_db 1000500000 ''s3'' kim_create)
     = Inr (kim, ''kim@example.com'', kim_token)
   \<and> \<not> is_active kim
   \<and> users (snd (register example_env example_db 1000500000 ''s3'' kim_create))
       = users example_db @ [kim]
   \<and> kim\<lparr>is_active := True\<rparr>
       \<in> set (users (step example_env 1000600000 (VerifyEmail kim_token)
                       (example_db\<lparr>users := users example_db @ [kim]\<rparr>)))
   \<and> is_active (kim\<lparr>is_active := True\<rparr>)
   \<and> kim_token = JWS ALGORITHM [(''exp'', JInt 87400), (''sub'', JStr (email_user kim))]
        (hmac example_env (SECRET_KEY example_env)
           (ALGORITHM, [(''exp'', JInt 87400), (''sub'', JStr (email_user kim))]))
   \<and> timegm 1000600000 \<le> 87400
   \<and> kim \<in> set (users (example_db\<lparr>users := users example_db @ [kim]\<rparr>))
   \<and> create_access_token example_env 1000500000 [(''sub'', PStr (email_user eve))] None
       = Inr fresh_token
   \<and> (1000600000 :: int) < 1000500000 + access_lifetime None
   \<and> get_user_by_email example_db (Some (JStr (email_user eve))) = Inr (Some eve)
   \<and> eve\<lparr>is_active := True\<rparr>
       \<in> set (users (step example_env 1000600000 (VerifyEmail fresh_token) example_db))"
proof -
  have r: "fst (register example_env example_db 1000500000 ''s3'' kim_create)
     = Inr (kim, ''kim@example.com'', kim_token)"
    by (simp add: register_kim)
  have d: "kim_token = JWS ALGORITHM [(''exp'', JInt 87400), (''sub'', JStr (email_user kim))]
        (hmac example_env (SECRET_KEY example_env)
           (ALGORITHM, [(''exp'', JInt 87400), (''sub'', JStr (email_user kim))]))"
      "timegm 1000600000 \<le> 87400"
    by (simp_all add: token_eval kim_def)
  have m: "kim\<lparr>is_active := True\<rparr>
       \<in> set (users (step example_env 1000600000 (VerifyEmail kim_token)
                       (example_db\<lparr>users := users example_db @ [kim]\<rparr>)))"
    unfolding verify_kim by simp
  have k: "kim \<in> set (users (example_db\<lparr>users := users example_db @ [kim]\<rparr>))"
    by simp
  have a: "create_access_token example_env 1000500000 [(''sub'', PStr (email_user eve))] None
       = Inr fresh_token"
      "(1000600000 :: int) < 1000500000 + access_lifetime None"
      "get_user_by_email example_db (Some (JStr (email_user eve))) = Inr (Some eve)"
    by (simp_all add: token_eval eve_def access_lifetime_def get_user_by_email_def user_eval)
  have v: "eve\<lparr>is_active := True\<rparr>
       \<in> set (users (step example_env 1000600000 (VerifyEmail fresh_token) example_db))"
    unfolding verify_eve_with_access_token by simp
  from is_active_only_by_verify_email [where e = example_env and s = example_db
      and now = 1000500000 and salt = "''s3''" and uc = kim_create and usr = kim
      and mail = "(''kim@example.com'', kim_token)" and t = 1000600000
      and req = "VerifyEmail kim_token"
      and st = "example_db\<lparr>users := users example_db @ [kim]\<rparr>"
      and issued = 1000500000 and holder = eve and expires_delta = None
      and access = fresh_token and clock = 1000600000 and ?db0.0 = example_db]
    r d m k a v
  show ?thesis by simp
qed

text \<open>
  The claim as stated fails: Eve is registered and has never verified her email; the
  access token that \<open>login_for_token\<close> gives her is no verification token, and
  \<open>verify_email\<close> with it activates her.
\<close>

theorem verify_email_takes_access_token:
  "eve \<in> set (users example_db) \<and> \<not> is_active eve
   \<and> login_for_token example_env example_db 1000500000 ''eve@example.com'' ''pw-eve''
       = Inr \<lparr>access_token = fresh_token, refresh_token = week_token, token_type = ''bearer''\<rparr>
   \<and> step example_env 1000600000 (VerifyEmail fresh_token) example_db
       = example_db\<lparr>users := [eve\<lparr>is_active := True\<rparr>, root]\<rparr>"
  by (simp add: login_for_token_def verify_password_def verify_email_def get_user_by_email_def
      activate_user_def user_eval token_eval)

text \<open>
  Along a run that starts with no active user, every active user has been the target
  of a \<open>verify_email\<close> request whose token decoded to a subject.
\<close>

lemma run_active:
  "u' \<in> set (users (run e reqs s)) \<Longrightarrow> is_active u' \<Longrightarrow>
     (\<exists>u \<in> set (users s). id_user u = id_user u' \<and> is_active u) \<or>
     (\<exists>now tok v. (now, VerifyEmail tok) \<in> set reqs \<and>
        decode_verification_token e now tok = Inr (Some (JStr v)))"
proof (induction reqs arbitrary: s)
  case Nil
  then show ?case by auto
next
  case (Cons a reqs)
  obtain now req where a: "a = (now, req)" by (cases a)
  with Cons.prems have "u' \<in> set (users (run e reqs (step e now req s)))" by simp
  from Cons.IH [OF this Cons.prems(2)] show ?case
  proof
    assume "\<exists>u \<in> set (users (step e now req s)). id_user u = id_user u' \<and> is_active u"
    then obtain u where u: "u \<in> set (users (step e now req s))" "id_user u = id_user u'"
      "is_active u" by blast
    from step_active [OF u(1,3)] u(2) a show ?thesis by fastforce
  next
    assume "\<exists>now tok v. (now, VerifyEmail tok) \<in> set reqs \<and>
        decode_verification_token e now tok = Inr (Some (JStr v))"
    then show ?thesis by auto
  qed
qed

end
